theory Spec2Isabelle
  imports Main "HOL-Library.Sublist"
begin

section \<open>The command line of pyproject-fmt (src/pyproject\_fmt/cli.py)\<close>

text \<open>
  The module builds an \<^verbatim>\<open>argparse\<close> parser, validates every input path while the
  arguments are parsed (\<^verbatim>\<open>pyproject_toml_path_creator\<close> is the \<^verbatim>\<open>type\<close> of the
  positional argument) and turns the parsed namespace into one \<^verbatim>\<open>Config\<close> per input.

  What the module takes from outside is made explicit:
  \<^item> the operating system is a value of type \<open>host\<close>: the working directory, the
    result of \<^verbatim>\<open>stat\<close> and of \<^verbatim>\<open>os.access\<close> for every path, and the text a file
    reads as. The host does not change while one command line is parsed;
  \<^item> \<^verbatim>\<open>int\<close>, \<^verbatim>\<open>packaging.version.Version\<close> and the two constants of
    \<^verbatim>\<open>config.py\<close> are the fields of a record \<open>externals\<close>;
  \<^item> \<^verbatim>\<open>pathlib\<close> and \<^verbatim>\<open>argparse\<close> are modelled as CPython 3.11 implements them on
    POSIX, for the parser that \<^verbatim>\<open>_build_cli\<close> builds.
  A Python \<^verbatim>\<open>str\<close> is a \<open>string\<close>; a digit is an ASCII digit.
\<close>

subsection \<open>pathlib: pure paths on POSIX\<close>

text \<open>\<^verbatim>\<open>str.split(sep)\<close> for a separator of one character.\<close>

fun split_on :: "char \<Rightarrow> string \<Rightarrow> string list" where
  "split_on c [] = [[]]"
| "split_on c (x # xs) =
     (if x = c then [] # split_on c xs
      else (x # hd (split_on c xs)) # tl (split_on c xs))"

text \<open>
  A path is its root (\<open>''''\<close>, \<open>''/''\<close> or \<open>''//''\<close>) and its components;
  \<^verbatim>\<open>_PosixFlavour.splitroot\<close> and \<^verbatim>\<open>parse_parts\<close> drop empty components and
  \<^verbatim>\<open>.\<close>, and keep \<^verbatim>\<open>..\<close>.
\<close>

record path =
  root :: string
  parts :: "string list"

definition splitroot :: "string \<Rightarrow> string \<times> string" where
  "splitroot part =
     (if part \<noteq> [] \<and> hd part = CHR ''/'' then
        (let stripped_part = dropWhile (\<lambda>c. c = CHR ''/'') part in
         if length part - length stripped_part = 2 then (''//'', stripped_part)
         else (''/'', stripped_part))
      else ('''', part))"

definition Path :: "string \<Rightarrow> path" where
  "Path s =
     (let (r, rel) = splitroot s in
      \<lparr>root = r, parts = filter (\<lambda>x. x \<noteq> [] \<and> x \<noteq> ''.'') (split_on CHR ''/'' rel)\<rparr>)"

definition is_absolute :: "path \<Rightarrow> bool" where
  "is_absolute p = (root p \<noteq> [])"

text \<open>\<^verbatim>\<open>path / key\<close>: an anchored key replaces the path, any other is appended.\<close>

definition truediv :: "path \<Rightarrow> string \<Rightarrow> path" where
  "truediv p key =
     (let q = Path key in
      if root q \<noteq> [] then q else p\<lparr>parts := parts p @ parts q\<rparr>)"

subsection \<open>The host: working directory, stat, access, file contents\<close>

datatype kind = Directory | Regular | Other_Kind

text \<open>
  \<^verbatim>\<open>Path.stat()\<close> gives a mode, or raises. \<^verbatim>\<open>exists\<close>, \<^verbatim>\<open>is_dir\<close> and
  \<^verbatim>\<open>is_file\<close> answer \<^verbatim>\<open>False\<close> for the errors pathlib ignores (ENOENT, ENOTDIR,
  EBADF, ELOOP, and the ValueError of a path that cannot be encoded) and let every
  other \<^verbatim>\<open>OSError\<close> through.
\<close>

datatype stat_result = St_Mode kind | Ignored_Error | Raises_OSError

datatype access_mode = R_OK | W_OK

record host =
  getcwd :: string
  stat :: "path \<Rightarrow> stat_result"
  access :: "path \<Rightarrow> access_mode \<Rightarrow> bool"
  read_text :: "path \<Rightarrow> string option"

text \<open>
  \<open>read_text h p\<close> is \<^verbatim>\<open>p.read_text(encoding="utf-8")\<close>: the text of the file, or
  \<open>None\<close> when opening, reading or decoding raises.
\<close>

datatype type_error = ArgumentTypeError string | OSError

definition absolute :: "host \<Rightarrow> path \<Rightarrow> path" where
  "absolute h p =
     (if is_absolute p then p
      else (let c = Path (getcwd h) in \<lparr>root = root c, parts = parts c @ parts p\<rparr>))"

definition exists_path :: "host \<Rightarrow> path \<Rightarrow> type_error + bool" where
  "exists_path h p =
     (case stat h p of
        St_Mode k \<Rightarrow> Inr True
      | Ignored_Error \<Rightarrow> Inr False
      | Raises_OSError \<Rightarrow> Inl OSError)"

definition is_dir :: "host \<Rightarrow> path \<Rightarrow> type_error + bool" where
  "is_dir h p =
     (case stat h p of
        St_Mode k \<Rightarrow> Inr (k = Directory)
      | Ignored_Error \<Rightarrow> Inr False
      | Raises_OSError \<Rightarrow> Inl OSError)"

definition is_file :: "host \<Rightarrow> path \<Rightarrow> type_error + bool" where
  "is_file h p =
     (case stat h p of
        St_Mode k \<Rightarrow> Inr (k = Regular)
      | Ignored_Error \<Rightarrow> Inr False
      | Raises_OSError \<Rightarrow> Inl OSError)"

subsection \<open>pyproject\_toml\_path\_creator\<close>

definition pyproject_toml_path_creator :: "host \<Rightarrow> string \<Rightarrow> type_error + path" where
  "pyproject_toml_path_creator h argument =
     (let path0 = absolute h (Path argument) in
      case is_dir h path0 of
        Inl e \<Rightarrow> Inl e
      | Inr d \<Rightarrow>
          (let path1 = (if d then truediv path0 ''pyproject.toml'' else path0) in
           case exists_path h path1 of
             Inl e \<Rightarrow> Inl e
           | Inr ex \<Rightarrow>
               if \<not> ex then Inl (ArgumentTypeError ''path does not exist'')
               else
                 (case is_file h path1 of
                    Inl e \<Rightarrow> Inl e
                  | Inr f \<Rightarrow>
                      if \<not> f then Inl (ArgumentTypeError ''path is not a file'')
                      else if \<not> access h path1 R_OK
                        then Inl (ArgumentTypeError ''cannot read path'')
                      else if \<not> access h path1 W_OK
                        then Inl (ArgumentTypeError ''cannot write path'')
                      else Inr path1)))"

subsection \<open>What the module imports: int, Version and the constants of config.py\<close>

text \<open>
  \<open>py_int\<close> is \<^verbatim>\<open>int(s)\<close> and \<open>Version\<close> is \<^verbatim>\<open>packaging.version.Version(s)\<close>;
  \<open>None\<close> stands for the \<^verbatim>\<open>ValueError\<close> either raises (\<^verbatim>\<open>InvalidVersion\<close> is one).
  The two constants that \<^verbatim>\<open>cli.py\<close> imports from \<^verbatim>\<open>config.py\<close> are fields as well.
  \<^verbatim>\<open>DEFAULT_MAX_SUPPORTED_PYTHON\<close> may be a \<^verbatim>\<open>str\<close> (\<open>Inl\<close>), which argparse
  converts with \<^verbatim>\<open>Version\<close> when the option is not given, or a \<^verbatim>\<open>Version\<close> already
  (\<open>Inr\<close>).
\<close>

record 'v externals =
  DEFAULT_INDENT :: int
  DEFAULT_MAX_SUPPORTED_PYTHON :: "string + 'v"
  py_int :: "string \<Rightarrow> int option"
  Version :: "string \<Rightarrow> 'v option"

subsection \<open>\_build\_cli: the parser\<close>

text \<open>
  The actions of the parser, in the order in which they are registered: argparse adds
  \<^verbatim>\<open>-h/--help\<close> itself, \<^verbatim>\<open>_build_cli\<close> adds the others.
\<close>

datatype action =
  Help | Version_Action | Stdout | Check | Keep_Full_Version | Indent
  | Max_Supported_Python | Inputs

definition option_string_actions :: "(string \<times> action) list" where
  "option_string_actions =
     [(''-h'', Help), (''--help'', Help),
      (''-V'', Version_Action), (''--version'', Version_Action),
      (''-s'', Stdout), (''--stdout'', Stdout),
      (''--check'', Check),
      (''--keep-full-version'', Keep_Full_Version),
      (''--indent'', Indent),
      (''--max-supported-python'', Max_Supported_Python)]"

datatype nargs = Nargs_0 | Nargs_None | ONE_OR_MORE

fun nargs_of :: "action \<Rightarrow> nargs" where
  "nargs_of Indent = Nargs_None"
| "nargs_of Max_Supported_Python = Nargs_None"
| "nargs_of Inputs = ONE_OR_MORE"
| "nargs_of a = Nargs_0"

text \<open>The mutually exclusive group holds \<^verbatim>\<open>-s/--stdout\<close> and \<^verbatim>\<open>--check\<close>.\<close>

fun action_conflicts :: "action \<Rightarrow> action list" where
  "action_conflicts Stdout = [Check]"
| "action_conflicts Check = [Stdout]"
| "action_conflicts a = []"

subsection \<open>How argparse ends: parser.error, parser.exit, or an exception it does not catch\<close>

datatype argument_message =
  Type_Message string
  | Invalid_Value string string
  | Expected_One_Argument
  | Ignored_Explicit_Argument string
  | Not_Allowed_With action

datatype usage_error =
  Argument_Error action argument_message
  | Ambiguous_Option string "string list"
  | Required_Arguments "action list"
  | Unrecognized_Arguments "string list"

text \<open>
  \<open>Parser_Error\<close> is \<^verbatim>\<open>parser.error\<close>: usage and message on stderr, then
  \<^verbatim>\<open>SystemExit(2)\<close>. \<open>Parser_Exit\<close> is \<^verbatim>\<open>parser.exit()\<close> after the help or the version
  was printed: \<^verbatim>\<open>SystemExit(0)\<close>. \<open>Uncaught_OSError\<close> is an \<^verbatim>\<open>OSError\<close> of
  \<^verbatim>\<open>stat\<close> inside the type function, which argparse does not catch.
\<close>

datatype failure = Parser_Error usage_error | Parser_Exit action | Uncaught_OSError

subsection \<open>argparse: classifying the argument strings\<close>

definition str_partition :: "char \<Rightarrow> string \<Rightarrow> string \<times> string \<times> string" where
  "str_partition c s =
     (if c \<in> set s then (takeWhile (\<lambda>d. d \<noteq> c) s, [c], tl (dropWhile (\<lambda>d. d \<noteq> c) s))
      else (s, [], []))"

definition is_digit :: "char \<Rightarrow> bool" where
  "is_digit c = (c \<in> set ''0123456789'')"

text \<open>
  \<^verbatim>\<open>_negative_number_matcher\<close> is \<^verbatim>\<open>'^-\d+$|^-\d*\.\d+$'\<close>; \<^verbatim>\<open>$\<close> also matches
  before a newline that ends the string.
\<close>

definition negative_number :: "string \<Rightarrow> bool" where
  "negative_number s =
     (case s of
        [] \<Rightarrow> False
      | c # r \<Rightarrow>
          c = CHR ''-'' \<and>
          (let body = (if r \<noteq> [] \<and> last r = CHR 0x0A then butlast r else r);
               rest = dropWhile is_digit body
           in (body \<noteq> [] \<and> rest = []) \<or>
              (rest \<noteq> [] \<and> hd rest = CHR ''.'' \<and> tl rest \<noteq> [] \<and> list_all is_digit (tl rest))))"

text \<open>
  An option tuple is (action, option string, separator, explicit argument); the action
  is \<open>None\<close> for a string that looks like an option the parser does not have.
\<close>

type_synonym option_tuple = "action option \<times> string \<times> string option \<times> string option"

definition get_option_tuples :: "string \<Rightarrow> option_tuple list" where
  "get_option_tuples s =
     (case s of
        c0 # c1 # s2 \<Rightarrow>
          if c1 = CHR ''-'' then
            (let (option_prefix, sep, explicit_arg) = str_partition CHR ''='' s in
             map (\<lambda>(option_string, a).
                    (Some a, option_string,
                     if sep = [] then None else Some sep,
                     if sep = [] then None else Some explicit_arg))
               (filter (\<lambda>(option_string, a). prefix option_prefix option_string)
                  option_string_actions))
          else
            (let short_option_prefix = take 2 s; short_explicit_arg = drop 2 s in
             concat
               (map (\<lambda>(option_string, a).
                       if option_string = short_option_prefix
                         then [(Some a, option_string, Some [], Some short_explicit_arg)]
                       else if prefix s option_string
                         then [(Some a, option_string, None, None)]
                       else [])
                  option_string_actions))
      | _ \<Rightarrow> [])"

definition parse_optional :: "string \<Rightarrow> failure + option_tuple option" where
  "parse_optional arg_string =
     (if arg_string = [] then Inr None
      else if hd arg_string \<noteq> CHR ''-'' then Inr None
      else
        (case map_of option_string_actions arg_string of
           Some a \<Rightarrow> Inr (Some (Some a, arg_string, None, None))
         | None \<Rightarrow>
             if length arg_string = 1 then Inr None
             else
               (let (option_string, sep, explicit_arg) = str_partition CHR ''='' arg_string in
                case (if sep = [] then None else map_of option_string_actions option_string) of
                  Some a \<Rightarrow> Inr (Some (Some a, option_string, Some sep, Some explicit_arg))
                | None \<Rightarrow>
                    (let option_tuples = get_option_tuples arg_string in
                     if length option_tuples > 1
                       then Inl (Parser_Error
                                   (Ambiguous_Option arg_string (map (fst \<circ> snd) option_tuples)))
                     else if length option_tuples = 1 then Inr (Some (hd option_tuples))
                     else if negative_number arg_string then Inr None
                     else if CHR '' '' \<in> set arg_string then Inr None
                     else Inr (Some (None, arg_string, None, None))))))"

text \<open>
  The pattern of the arguments: \<open>Pat_O\<close> for an option, \<open>Pat_A\<close> for an argument,
  \<open>Pat_Dash\<close> for the first \<^verbatim>\<open>--\<close>, after which every string is an argument.
\<close>

datatype pat = Pat_A | Pat_O option_tuple | Pat_Dash

fun classify :: "string list \<Rightarrow> failure + (string \<times> pat) list" where
  "classify [] = Inr []"
| "classify (arg_string # rest) =
     (if arg_string = ''--''
        then Inr ((arg_string, Pat_Dash) # map (\<lambda>s. (s, Pat_A)) rest)
      else
        (case parse_optional arg_string of
           Inl e \<Rightarrow> Inl e
         | Inr t \<Rightarrow>
             (case classify rest of
                Inl e \<Rightarrow> Inl e
              | Inr items \<Rightarrow>
                  Inr ((arg_string, case t of None \<Rightarrow> Pat_A | Some tup \<Rightarrow> Pat_O tup) # items))))"

fun is_option :: "pat \<Rightarrow> bool" where
  "is_option (Pat_O t) = True"
| "is_option p = False"

subsection \<open>argparse: the namespace while it is filled, and take\_action\<close>

text \<open>
  The attributes of the namespace start at the defaults of their actions (\<^verbatim>\<open>None\<close> for
  the positional). \<open>positionals\<close> is the list of positional actions not yet consumed.
\<close>

record 'v pstate =
  ns_inputs :: "path list option"
  ns_stdout :: bool
  ns_indent :: int
  ns_check :: bool
  ns_keep_full_version :: bool
  ns_max_supported_python :: "string + 'v"
  seen_actions :: "action set"
  seen_non_default_actions :: "action set"
  positionals :: "action list"
  extras :: "string list"

definition initial_state :: "'v externals \<Rightarrow> 'v pstate" where
  "initial_state x =
     \<lparr>ns_inputs = None, ns_stdout = False, ns_indent = DEFAULT_INDENT x, ns_check = False,
      ns_keep_full_version = False,
      ns_max_supported_python = DEFAULT_MAX_SUPPORTED_PYTHON x,
      seen_actions = {}, seen_non_default_actions = {}, positionals = [Inputs],
      extras = []\<rparr>"

text \<open>
  The values of the positional: the first \<^verbatim>\<open>--\<close> is removed, then the type function
  runs on every string in turn; the first one that raises ends the parse.
\<close>

fun get_paths :: "host \<Rightarrow> string list \<Rightarrow> failure + path list" where
  "get_paths h [] = Inr []"
| "get_paths h (v # vs) =
     (case pyproject_toml_path_creator h v of
        Inl (ArgumentTypeError msg) \<Rightarrow>
          Inl (Parser_Error (Argument_Error Inputs (Type_Message msg)))
      | Inl OSError \<Rightarrow> Inl Uncaught_OSError
      | Inr p \<Rightarrow>
          (case get_paths h vs of
             Inl e \<Rightarrow> Inl e
           | Inr ps \<Rightarrow> Inr (p # ps)))"

text \<open>
  The value of an action is never the object that is its default (a fresh list for a
  flag), so the action is recorded and checked against the members of its group seen
  before.
\<close>

definition check_conflicts :: "'v pstate \<Rightarrow> action \<Rightarrow> failure + 'v pstate" where
  "check_conflicts st a =
     (let st' = st\<lparr>seen_non_default_actions := insert a (seen_non_default_actions st)\<rparr> in
      case filter (\<lambda>c. c \<in> seen_non_default_actions st') (action_conflicts a) of
        [] \<Rightarrow> Inr st'
      | c # cs \<Rightarrow> Inl (Parser_Error (Argument_Error a (Not_Allowed_With c))))"

text \<open>
  \<^verbatim>\<open>take_action\<close>: convert the strings, check the conflicts, call the action. An
  option of \<^verbatim>\<open>nargs=None\<close> gets exactly one string, or \<^verbatim>\<open>_match_argument\<close> has
  raised before.
\<close>

definition take_action ::
  "'v externals \<Rightarrow> host \<Rightarrow> 'v pstate \<Rightarrow> action \<Rightarrow> string list \<Rightarrow> failure + 'v pstate" where
  "take_action x h st a argument_strings =
     (let st1 = st\<lparr>seen_actions := insert a (seen_actions st)\<rparr> in
      case a of
        Help \<Rightarrow>
          (case check_conflicts st1 a of Inl e \<Rightarrow> Inl e | Inr st2 \<Rightarrow> Inl (Parser_Exit Help))
      | Version_Action \<Rightarrow>
          (case check_conflicts st1 a of
             Inl e \<Rightarrow> Inl e
           | Inr st2 \<Rightarrow> Inl (Parser_Exit Version_Action))
      | Stdout \<Rightarrow>
          (case check_conflicts st1 a of
             Inl e \<Rightarrow> Inl e
           | Inr st2 \<Rightarrow> Inr (st2\<lparr>ns_stdout := True\<rparr>))
      | Check \<Rightarrow>
          (case check_conflicts st1 a of
             Inl e \<Rightarrow> Inl e
           | Inr st2 \<Rightarrow> Inr (st2\<lparr>ns_check := True\<rparr>))
      | Keep_Full_Version \<Rightarrow>
          (case check_conflicts st1 a of
             Inl e \<Rightarrow> Inl e
           | Inr st2 \<Rightarrow> Inr (st2\<lparr>ns_keep_full_version := True\<rparr>))
      | Indent \<Rightarrow>
          (case argument_strings of
             [v] \<Rightarrow>
               (case py_int x v of
                  None \<Rightarrow> Inl (Parser_Error (Argument_Error a (Invalid_Value ''int'' v)))
                | Some n \<Rightarrow>
                    (case check_conflicts st1 a of
                       Inl e \<Rightarrow> Inl e
                     | Inr st2 \<Rightarrow> Inr (st2\<lparr>ns_indent := n\<rparr>)))
           | _ \<Rightarrow> Inl (Parser_Error (Argument_Error a Expected_One_Argument)))
      | Max_Supported_Python \<Rightarrow>
          (case argument_strings of
             [v] \<Rightarrow>
               (case Version x v of
                  None \<Rightarrow> Inl (Parser_Error (Argument_Error a (Invalid_Value ''Version'' v)))
                | Some ver \<Rightarrow>
                    (case check_conflicts st1 a of
                       Inl e \<Rightarrow> Inl e
                     | Inr st2 \<Rightarrow> Inr (st2\<lparr>ns_max_supported_python := Inr ver\<rparr>)))
           | _ \<Rightarrow> Inl (Parser_Error (Argument_Error a Expected_One_Argument)))
      | Inputs \<Rightarrow>
          (case get_paths h (remove1 ''--'' argument_strings) of
             Inl e \<Rightarrow> Inl e
           | Inr ps \<Rightarrow>
               (case check_conflicts st1 a of
                  Inl e \<Rightarrow> Inl e
                | Inr st2 \<Rightarrow> Inr (st2\<lparr>ns_inputs := Some ps\<rparr>))))"

fun take_actions ::
  "'v externals \<Rightarrow> host \<Rightarrow> 'v pstate \<Rightarrow> (action \<times> string list) list \<Rightarrow> failure + 'v pstate"
  where
  "take_actions x h st [] = Inr st"
| "take_actions x h st ((a, args) # ts) =
     (case take_action x h st a args of
        Inl e \<Rightarrow> Inl e
      | Inr st' \<Rightarrow> take_actions x h st' ts)"

subsection \<open>argparse: consume\_optional\<close>

text \<open>
  \<^verbatim>\<open>_match_argument\<close> for an option: the pattern is \<^verbatim>\<open>()\<close> for \<^verbatim>\<open>nargs=0\<close> and
  \<^verbatim>\<open>(A)\<close> for \<^verbatim>\<open>nargs=None\<close>.
\<close>

definition match_argument :: "action \<Rightarrow> pat list \<Rightarrow> failure + nat" where
  "match_argument a pattern =
     (if nargs_of a = Nargs_0 then Inr 0
      else
        (case pattern of
           Pat_A # rest \<Rightarrow> Inr 1
         | _ \<Rightarrow> Inl (Parser_Error (Argument_Error a Expected_One_Argument))))"

text \<open>
  The loop of \<^verbatim>\<open>consume_optional\<close>: it collects the actions of one argument string
  (\<^verbatim>\<open>-sV\<close> is \<^verbatim>\<open>-s -V\<close>), the number of following strings the last one takes, and
  what goes to the extras. The actions are taken after the loop.
\<close>

function optional_loop ::
  "action \<Rightarrow> string \<Rightarrow> string option \<Rightarrow> string option \<Rightarrow> (action \<times> string list) list \<Rightarrow>
   (string \<times> pat) list \<Rightarrow> failure + ((action \<times> string list) list \<times> nat \<times> string list)"
  where
  "optional_loop a option_string sep explicit_arg action_tuples following =
     (case explicit_arg of
        Some e \<Rightarrow>
          (let arg_count = (if nargs_of a = Nargs_0 then 0 else (1::nat)) in
           if arg_count = 0 \<and> option_string ! 1 \<noteq> CHR ''-'' \<and> e \<noteq> [] then
             (if (sep \<noteq> None \<and> sep \<noteq> Some []) \<or> hd e = CHR ''-''
                then Inl (Parser_Error (Argument_Error a (Ignored_Explicit_Argument e)))
              else
                (let action_tuples' = action_tuples @ [(a, [])];
                     option_string' = [hd option_string, hd e]
                 in case map_of option_string_actions option_string' of
                      Some a' \<Rightarrow>
                        if tl e = []
                          then optional_loop a' option_string' None None action_tuples' following
                        else if hd (tl e) = CHR ''=''
                          then optional_loop a' option_string' (Some ''='') (Some (tl (tl e)))
                                 action_tuples' following
                        else optional_loop a' option_string' (Some []) (Some (tl e))
                               action_tuples' following
                    | None \<Rightarrow> Inr (action_tuples', 0, [hd option_string # e])))
           else if arg_count = 1 then Inr (action_tuples @ [(a, [e])], 0, [])
           else Inl (Parser_Error (Argument_Error a (Ignored_Explicit_Argument e))))
      | None \<Rightarrow>
          (case match_argument a (map snd following) of
             Inl err \<Rightarrow> Inl err
           | Inr arg_count \<Rightarrow>
               Inr (action_tuples @ [(a, map fst (take arg_count following))], arg_count, [])))"
  by pat_completeness auto
termination
  by (relation "measure (\<lambda>(a, os, sep, e, ts, f). case e of None \<Rightarrow> 0 | Some s \<Rightarrow> Suc (length s))")
     auto

declare optional_loop.simps [simp del]

definition consume_optional ::
  "'v externals \<Rightarrow> host \<Rightarrow> 'v pstate \<Rightarrow> string \<Rightarrow> option_tuple \<Rightarrow> (string \<times> pat) list \<Rightarrow>
   failure + ('v pstate \<times> nat)" where
  "consume_optional x h st arg_string option_tuple following =
     (case option_tuple of
        (None, option_string, sep, explicit_arg) \<Rightarrow>
          Inr (st\<lparr>extras := extras st @ [arg_string]\<rparr>, 0)
      | (Some a, option_string, sep, explicit_arg) \<Rightarrow>
          (case optional_loop a option_string sep explicit_arg [] following of
             Inl e \<Rightarrow> Inl e
           | Inr (action_tuples, arg_count, ex) \<Rightarrow>
               (case take_actions x h (st\<lparr>extras := extras st @ ex\<rparr>) action_tuples of
                  Inl e \<Rightarrow> Inl e
                | Inr st' \<Rightarrow> Inr (st', arg_count))))"

subsection \<open>argparse: consume\_positionals\<close>

text \<open>
  The pattern of the positional (\<^verbatim>\<open>nargs='+'\<close>) is \<^verbatim>\<open>(-*A[A-]*)\<close>, matched at the
  start of the pattern that is left; the result is the length of the match.
\<close>

definition match_one_or_more :: "pat list \<Rightarrow> nat option" where
  "match_one_or_more pattern =
     (let dashes = takeWhile (\<lambda>p. p = Pat_Dash) pattern;
          rest = dropWhile (\<lambda>p. p = Pat_Dash) pattern
      in case rest of
           Pat_A # following \<Rightarrow>
             Some (length dashes + 1 + length (takeWhile (\<lambda>p. \<not> is_option p) following))
         | _ \<Rightarrow> None)"

text \<open>
  \<^verbatim>\<open>_match_arguments_partial\<close> for the positionals left, which are the one positional
  of this parser or none.
\<close>

definition match_arguments_partial :: "action list \<Rightarrow> pat list \<Rightarrow> nat list" where
  "match_arguments_partial actions pattern =
     (case actions of
        [] \<Rightarrow> []
      | a # as \<Rightarrow> (case match_one_or_more pattern of None \<Rightarrow> [] | Some n \<Rightarrow> [n]))"

definition consume_positionals ::
  "'v externals \<Rightarrow> host \<Rightarrow> 'v pstate \<Rightarrow> (string \<times> pat) list \<Rightarrow> failure + ('v pstate \<times> nat)"
  where
  "consume_positionals x h st items =
     (case match_arguments_partial (positionals st) (map snd items) of
        [] \<Rightarrow> Inr (st, 0)
      | arg_count # cs \<Rightarrow>
          (case take_action x h st (hd (positionals st)) (map fst (take arg_count items)) of
             Inl e \<Rightarrow> Inl e
           | Inr st' \<Rightarrow> Inr (st'\<lparr>positionals := tl (positionals st')\<rparr>, arg_count)))"

subsection \<open>argparse: the main loop, the required arguments, the extras\<close>

text \<open>
  The loop runs while an option string is left. Before an option, the positionals are
  consumed; if none is left to consume, the strings before the option go to the extras.
  The loop returns the state and the strings after the last option.
\<close>

function parse_loop ::
  "'v externals \<Rightarrow> host \<Rightarrow> 'v pstate \<Rightarrow> (string \<times> pat) list \<Rightarrow>
   failure + ('v pstate \<times> (string \<times> pat) list)" where
  "parse_loop x h st items =
     (if \<not> list_ex (\<lambda>i. is_option (snd i)) items then Inr (st, items)
      else
        (case items of
           (arg_string, Pat_O t) # following \<Rightarrow>
             (case consume_optional x h st arg_string t following of
                Inl e \<Rightarrow> Inl e
              | Inr (st', arg_count) \<Rightarrow> parse_loop x h st' (drop arg_count following))
         | _ \<Rightarrow>
             (case consume_positionals x h st items of
                Inl e \<Rightarrow> Inl e
              | Inr (st', n) \<Rightarrow>
                  if n > 0 then parse_loop x h st' (drop n items)
                  else
                    parse_loop x h
                      (st'\<lparr>extras :=
                            extras st' @ map fst (takeWhile (\<lambda>i. \<not> is_option (snd i)) items)\<rparr>)
                      (dropWhile (\<lambda>i. \<not> is_option (snd i)) items))))"
  by pat_completeness auto
termination
  by (relation "measure (\<lambda>(x, h, st, items). length items)")
     (auto simp: less_Suc_eq_le length_dropWhile_le)

declare parse_loop.simps [simp del]

text \<open>
  After the loop: the positionals once more, the rest to the extras; then, in the order
  of the actions, the \<^verbatim>\<open>str\<close> default of an option not seen is converted, and a
  required action not seen is an error. \<^verbatim>\<open>parse_args\<close> refuses extras.
\<close>

definition convert_default :: "'v externals \<Rightarrow> 'v pstate \<Rightarrow> failure + 'v pstate" where
  "convert_default x st =
     (if Max_Supported_Python \<in> seen_actions st then Inr st
      else
        (case ns_max_supported_python st of
           Inr ver \<Rightarrow> Inr st
         | Inl s \<Rightarrow>
             (case Version x s of
                None \<Rightarrow>
                  Inl (Parser_Error
                         (Argument_Error Max_Supported_Python (Invalid_Value ''Version'' s)))
              | Some ver \<Rightarrow> Inr (st\<lparr>ns_max_supported_python := Inr ver\<rparr>))))"

definition parse_known_args ::
  "'v externals \<Rightarrow> host \<Rightarrow> string list \<Rightarrow> failure + 'v pstate" where
  "parse_known_args x h arg_strings =
     (case classify arg_strings of
        Inl e \<Rightarrow> Inl e
      | Inr items \<Rightarrow>
          (case parse_loop x h (initial_state x) items of
             Inl e \<Rightarrow> Inl e
           | Inr (st, remaining) \<Rightarrow>
               (case consume_positionals x h st remaining of
                  Inl e \<Rightarrow> Inl e
                | Inr (st', stop) \<Rightarrow>
                    (case convert_default x
                            (st'\<lparr>extras := extras st' @ map fst (drop stop remaining)\<rparr>) of
                       Inl e \<Rightarrow> Inl e
                     | Inr st'' \<Rightarrow>
                         if Inputs \<notin> seen_actions st''
                           then Inl (Parser_Error (Required_Arguments [Inputs]))
                         else Inr st''))))"

subsection \<open>PyProjectFmtNamespace and cli\_args\<close>

record 'v Config =
  pyproject_toml :: path
  toml :: string
  indent :: int
  keep_full_version :: bool
  max_supported_python :: 'v

record 'v PyProjectFmtNamespace =
  inputs :: "path list"
  stdout :: bool
  indent :: int
  check :: bool
  keep_full_version :: bool
  max_supported_python :: 'v

text \<open>
  \<^verbatim>\<open>parse_args\<close> fills the namespace that \<^verbatim>\<open>cli_args\<close> created. When it returns,
  \<^verbatim>\<open>inputs\<close> is a list (the positional is required) and \<^verbatim>\<open>max_supported_python\<close> is
  a \<^verbatim>\<open>Version\<close>.
\<close>

definition cli_args ::
  "'v externals \<Rightarrow> host \<Rightarrow> string list \<Rightarrow> failure + 'v PyProjectFmtNamespace" where
  "cli_args x h args =
     (case parse_known_args x h args of
        Inl e \<Rightarrow> Inl e
      | Inr st \<Rightarrow>
          if extras st \<noteq> [] then Inl (Parser_Error (Unrecognized_Arguments (extras st)))
          else
            (case (ns_inputs st, ns_max_supported_python st) of
               (Some ps, Inr ver) \<Rightarrow>
                 Inr \<lparr>inputs = ps, stdout = ns_stdout st, indent = ns_indent st,
                      check = ns_check st, keep_full_version = ns_keep_full_version st,
                      max_supported_python = ver\<rparr>
             | _ \<Rightarrow> Inl (Parser_Error (Required_Arguments [Inputs]))))"

text \<open>
  \<^verbatim>\<open>configs\<close>: one \<^verbatim>\<open>Config\<close> per input, in order; the comprehension stops at the
  first file that cannot be read as UTF-8 text.
\<close>

datatype read_error = Read_Error path

fun configs_of ::
  "host \<Rightarrow> 'v PyProjectFmtNamespace \<Rightarrow> path list \<Rightarrow> read_error + 'v Config list" where
  "configs_of h self [] = Inr []"
| "configs_of h self (t # ts) =
     (case read_text h t of
        None \<Rightarrow> Inl (Read_Error t)
      | Some text \<Rightarrow>
          (case configs_of h self ts of
             Inl e \<Rightarrow> Inl e
           | Inr cs \<Rightarrow>
               Inr (Config.make t text (PyProjectFmtNamespace.indent self)
                      (PyProjectFmtNamespace.keep_full_version self)
                      (PyProjectFmtNamespace.max_supported_python self) # cs)))"

definition configs :: "host \<Rightarrow> 'v PyProjectFmtNamespace \<Rightarrow> read_error + 'v Config list" where
  "configs h self = configs_of h self (inputs self)"

text \<open>
  The value of \<^verbatim>\<open>max_supported_python\<close> when the option is not given: the default,
  converted if it is a \<^verbatim>\<open>str\<close>.
\<close>

definition default_version :: "'v externals \<Rightarrow> failure + 'v" where
  "default_version x =
     (case DEFAULT_MAX_SUPPORTED_PYTHON x of
        Inr ver \<Rightarrow> Inr ver
      | Inl s \<Rightarrow>
          (case Version x s of
             None \<Rightarrow> Inl (Parser_Error
                           (Argument_Error Max_Supported_Python (Invalid_Value ''Version'' s)))
           | Some ver \<Rightarrow> Inr ver))"


subsection \<open>Predicates on the state of the parser\<close>

text \<open>
  Two properties that every step of the parser keeps: a flag of the mutually exclusive
  group is set only when its action was recorded, and the two actions are never both
  recorded; every path stored for the positional came out of the type function.
\<close>

definition mutex_inv :: "'v pstate \<Rightarrow> bool" where
  "mutex_inv st = ((ns_stdout st \<longrightarrow> Stdout \<in> seen_non_default_actions st) \<and>
     (ns_check st \<longrightarrow> Check \<in> seen_non_default_actions st) \<and>
     \<not> (Stdout \<in> seen_non_default_actions st \<and> Check \<in> seen_non_default_actions st))"

definition inputs_inv :: "host \<Rightarrow> 'v pstate \<Rightarrow> bool" where
  "inputs_inv h st = (case ns_inputs st of None \<Rightarrow> True
     | Some ps \<Rightarrow> list_all (\<lambda>p. \<exists>a. pyproject_toml_path_creator h a = Inr p) ps)"

subsection \<open>A concrete host and concrete externals, for the examples\<close>

text \<open>
  \<open>ascii_int\<close> is \<^verbatim>\<open>int\<close> on an optional sign followed by ASCII digits, and
  \<open>release_version\<close> is \<^verbatim>\<open>Version\<close> on dotted release numbers, with the release tuple
  as the value. On these strings they agree with the Python functions.
\<close>

definition digits_value :: "string \<Rightarrow> nat" where
  "digits_value ds = foldl (\<lambda>n c. 10 * n + (of_char c - 48)) 0 ds"

definition ascii_int :: "string \<Rightarrow> int option" where
  "ascii_int s =
     (case s of
        [] \<Rightarrow> None
      | c # r \<Rightarrow>
          if c = CHR ''-''
            then (if r \<noteq> [] \<and> list_all is_digit r then Some (- int (digits_value r)) else None)
          else if c = CHR ''+''
            then (if r \<noteq> [] \<and> list_all is_digit r then Some (int (digits_value r)) else None)
          else if list_all is_digit s then Some (int (digits_value s))
          else None)"

definition release_version :: "string \<Rightarrow> nat list option" where
  "release_version s =
     (let segments = split_on CHR ''.'' s in
      if list_all (\<lambda>g. g \<noteq> [] \<and> list_all is_digit g) segments
        then Some (map digits_value segments)
      else None)"

definition example_externals :: "nat list externals" where
  "example_externals =
     \<lparr>DEFAULT_INDENT = 2, DEFAULT_MAX_SUPPORTED_PYTHON = Inl ''3.13'',
      py_int = ascii_int, Version = release_version\<rparr>"

text \<open>
  The working directory \<^verbatim>\<open>/w\<close> holds the regular files \<^verbatim>\<open>a.toml\<close>, \<^verbatim>\<open>b.toml\<close>,
  \<^verbatim>\<open>-s\<close> and \<^verbatim>\<open>--check\<close>, and the directory \<^verbatim>\<open>proj\<close> with a
  \<^verbatim>\<open>pyproject.toml\<close>; everything there can be read and written.
\<close>

definition example_files :: "(path \<times> kind) list" where
  "example_files =
     [(\<lparr>root = ''/'', parts = [''w'']\<rparr>, Directory),
      (\<lparr>root = ''/'', parts = [''w'', ''a.toml'']\<rparr>, Regular),
      (\<lparr>root = ''/'', parts = [''w'', ''b.toml'']\<rparr>, Regular),
      (\<lparr>root = ''/'', parts = [''w'', ''-s'']\<rparr>, Regular),
      (\<lparr>root = ''/'', parts = [''w'', ''--check'']\<rparr>, Regular),
      (\<lparr>root = ''/'', parts = [''w'', ''proj'']\<rparr>, Directory),
      (\<lparr>root = ''/'', parts = [''w'', ''proj'', ''pyproject.toml'']\<rparr>, Regular)]"

definition example_host :: host where
  "example_host =
     \<lparr>getcwd = ''/w'',
      stat = (\<lambda>p. case map_of example_files p of
                     None \<Rightarrow> Ignored_Error
                   | Some k \<Rightarrow> St_Mode k),
      access = (\<lambda>p m. map_of example_files p \<noteq> None),
      read_text = (\<lambda>p. if map_of example_files p = Some Regular
                        then Some ''[project]'' else None)\<rparr>"

section \<open>Version trimming in the dependency normaliser\<close>

text \<open>
  Modelled from the spec: the dependency normaliser (step 4 of its contract) and the
  VersionNumber of the data model; the normaliser is not part of \<^verbatim>\<open>cli.py\<close>. A
  VersionNumber is an ordered sequence of non-negative integer components plus an
  opaque suffix; a version constraint is an operator with a VersionNumber.
\<close>

record VersionNumber =
  release :: "nat list"
  release_suffix :: string

text \<open>
  Modelled from the spec: trailing zero components are trimmed from the release-number
  sequence down to a minimum of one component.
\<close>

definition trim_release :: "nat list \<Rightarrow> nat list" where
  "trim_release r =
     (case rev (dropWhile (\<lambda>n. n = 0) (rev r)) of
        [] \<Rightarrow> take 1 r
      | c # cs \<Rightarrow> c # cs)"

text \<open>
  Modelled from the spec: a constraint is trimmed if \<^verbatim>\<open>keep_full_version\<close> is false;
  the operator and the suffix are never altered.
\<close>

definition normalize_constraint ::
  "bool \<Rightarrow> string \<times> VersionNumber \<Rightarrow> string \<times> VersionNumber" where
  "normalize_constraint keep constraint =
     (case constraint of
        (operator, v) \<Rightarrow>
          (operator, if keep then v else v\<lparr>release := trim_release (release v)\<rparr>))"

text \<open>
  Modelled from the spec: a constraint is serialised as the operator followed by the
  version, the release components in decimal and joined by dots, then the suffix.
\<close>

function decimal :: "nat \<Rightarrow> string" where
  "decimal n =
     (if n < 10 then [''0123456789'' ! n]
      else decimal (n div 10) @ [''0123456789'' ! (n mod 10)])"
  by pat_completeness auto
termination
  by (relation "measure id") auto

declare decimal.simps [simp del]

fun join_dots :: "string list \<Rightarrow> string" where
  "join_dots [] = []"
| "join_dots [s] = s"
| "join_dots (s # t # ts) = s @ ''.'' @ join_dots (t # ts)"

definition version_text :: "VersionNumber \<Rightarrow> string" where
  "version_text v = join_dots (map decimal (release v)) @ release_suffix v"

section \<open>Properties\<close>

subsection \<open>Paths\<close>

lemma is_absolute_absolute:
  "is_absolute (Path (getcwd h)) \<Longrightarrow> is_absolute (absolute h p)"
  by (simp add: absolute_def is_absolute_def Let_def)

lemma is_absolute_truediv: "is_absolute p \<Longrightarrow> is_absolute (truediv p key)"
  by (simp add: truediv_def is_absolute_def Let_def)

lemma creator_Inr:
  assumes "pyproject_toml_path_creator h a = Inr p"
  shows "(p = absolute h (Path a) \<or> p = truediv (absolute h (Path a)) ''pyproject.toml'')
     \<and> stat h p = St_Mode Regular \<and> access h p R_OK \<and> access h p W_OK"
  using assms
  by (auto simp: pyproject_toml_path_creator_def Let_def is_dir_def is_file_def exists_path_def
      split: sum.splits if_splits stat_result.splits)

subsection \<open>The loop of the parser\<close>

text \<open>
  A property of the state that every step of the loop preserves holds when the loop
  ends. The steps may depend on where in the argument list they happen, so the
  hypotheses speak of suffixes of the list the loop started with.
\<close>

lemma take_actions_invariant:
  assumes step: "\<And>st a vs st'. P st \<Longrightarrow> (a, vs) \<in> set ts \<Longrightarrow> take_action x h st a vs = Inr st' \<Longrightarrow> P st'"
  shows "P st \<Longrightarrow> take_actions x h st ts = Inr st' \<Longrightarrow> P st'"
  using step
proof (induction ts arbitrary: st)
  case Nil
  then show ?case by simp
next
  case (Cons t ts)
  obtain a vs where t: "t = (a, vs)" by (cases t)
  from Cons.prems(2) t obtain st1 where
    1: "take_action x h st a vs = Inr st1" and 2: "take_actions x h st1 ts = Inr st'"
    by (auto split: sum.splits)
  have "(a, vs) \<in> set (t # ts)" using t by simp
  from Cons.prems(3)[OF Cons.prems(1) this 1] have P1: "P st1" .
  have step': "\<And>st a vs st'. P st \<Longrightarrow> (a, vs) \<in> set ts \<Longrightarrow> take_action x h st a vs = Inr st' \<Longrightarrow> P st'"
  proof -
    fix st a vs st'
    assume "P st" "(a, vs) \<in> set ts" "take_action x h st a vs = Inr st'"
    moreover have "(a, vs) \<in> set ts \<Longrightarrow> (a, vs) \<in> set (t # ts)" by simp
    ultimately show "P st'" using Cons.prems(3) by blast
  qed
  show ?case by (rule Cons.IH[OF P1 2 step'])
qed

lemma parse_loop_stop:
  "\<not> list_ex (\<lambda>i. is_option (snd i)) items \<Longrightarrow> parse_loop x h st items = Inr (st, items)"
  by (subst parse_loop.simps) simp

lemma parse_loop_optional:
  "parse_loop x h st ((s, Pat_O t) # f) =
     (case consume_optional x h st s t f of
        Inl e \<Rightarrow> Inl e
      | Inr (st', arg_count) \<Rightarrow> parse_loop x h st' (drop arg_count f))"
  by (subst parse_loop.simps) simp

lemma parse_loop_positional:
  assumes "\<not> is_option p" "list_ex (\<lambda>i. is_option (snd i)) f"
  shows "parse_loop x h st ((s, p) # f) =
     (case consume_positionals x h st ((s, p) # f) of
        Inl e \<Rightarrow> Inl e
      | Inr (st', n) \<Rightarrow>
          if n > 0 then parse_loop x h st' (drop n ((s, p) # f))
          else parse_loop x h
                 (st'\<lparr>extras := extras st' @ map fst (takeWhile (\<lambda>i. \<not> is_option (snd i)) ((s, p) # f))\<rparr>)
                 (dropWhile (\<lambda>i. \<not> is_option (snd i)) ((s, p) # f)))"
  using assms by (subst parse_loop.simps) (cases p; simp)

lemma parse_loop_unfold:
  assumes "parse_loop x h st items = Inr r"
  shows "(\<not> list_ex (\<lambda>i. is_option (snd i)) items \<and> r = (st, items)) \<or>
   (\<exists>s t f st1 n. items = (s, Pat_O t) # f \<and> consume_optional x h st s t f = Inr (st1, n)
       \<and> parse_loop x h st1 (drop n f) = Inr r) \<or>
   (\<exists>s p f st1 n. items = (s, p) # f \<and> \<not> is_option p \<and> list_ex (\<lambda>i. is_option (snd i)) f
       \<and> consume_positionals x h st items = Inr (st1, n)
       \<and> (if n > 0 then parse_loop x h st1 (drop n items) = Inr r
           else parse_loop x h
                  (st1\<lparr>extras := extras st1 @ map fst (takeWhile (\<lambda>i. \<not> is_option (snd i)) items)\<rparr>)
                  (dropWhile (\<lambda>i. \<not> is_option (snd i)) items) = Inr r))"
proof (cases "list_ex (\<lambda>i. is_option (snd i)) items")
  case False
  with assms show ?thesis by (simp add: parse_loop_stop)
next
  case True
  then obtain s p f where items: "items = (s, p) # f" by (cases items) auto
  show ?thesis
  proof (cases "is_option p")
    case opt: True
    then obtain t where p: "p = Pat_O t" by (cases p) auto
    from assms obtain st1 n where "consume_optional x h st s t f = Inr (st1, n)"
      "parse_loop x h st1 (drop n f) = Inr r"
      unfolding items p parse_loop_optional by (simp split: sum.splits prod.splits)
    then show ?thesis using items p by blast
  next
    case nopt: False
    with True items have ex: "list_ex (\<lambda>i. is_option (snd i)) f" by simp
    from assms obtain st1 n where 1: "consume_positionals x h st items = Inr (st1, n)"
      and 2: "(if n > 0 then parse_loop x h st1 (drop n items)
           else parse_loop x h
                  (st1\<lparr>extras := extras st1 @ map fst (takeWhile (\<lambda>i. \<not> is_option (snd i)) items)\<rparr>)
                  (dropWhile (\<lambda>i. \<not> is_option (snd i)) items)) = Inr r"
      unfolding items parse_loop_positional[OF nopt ex] by (simp split: sum.splits prod.splits)
    from 2 have "(if n > 0 then parse_loop x h st1 (drop n items) = Inr r
           else parse_loop x h
                  (st1\<lparr>extras := extras st1 @ map fst (takeWhile (\<lambda>i. \<not> is_option (snd i)) items)\<rparr>)
                  (dropWhile (\<lambda>i. \<not> is_option (snd i)) items) = Inr r)"
      by (simp split: if_splits)
    with 1 items nopt ex show ?thesis by blast
  qed
qed

lemma parse_loop_invariant:
  assumes opt: "\<And>st s t f st' n. P st \<Longrightarrow> suffix ((s, Pat_O t) # f) items0 \<Longrightarrow>
                  consume_optional x h st s t f = Inr (st', n) \<Longrightarrow> P st'"
    and pos: "\<And>st its st' n. P st \<Longrightarrow> suffix its items0 \<Longrightarrow>
                  consume_positionals x h st its = Inr (st', n) \<Longrightarrow> P st'"
    and ext: "\<And>st e. P st \<Longrightarrow> P (st\<lparr>extras := e\<rparr>)"
  shows "P st \<Longrightarrow> suffix items items0 \<Longrightarrow> parse_loop x h st items = Inr (st', remaining)
    \<Longrightarrow> P st' \<and> suffix remaining items0"
proof (induction "length items" arbitrary: st items rule: less_induct)
  case less
  from parse_loop_unfold[OF less.prems(3)]
  consider
    (stop) "\<not> list_ex (\<lambda>i. is_option (snd i)) items" "(st', remaining) = (st, items)"
  | (optional) s t f st1 n where "items = (s, Pat_O t) # f"
      "consume_optional x h st s t f = Inr (st1, n)"
      "parse_loop x h st1 (drop n f) = Inr (st', remaining)"
  | (positional) s p f st1 n where "items = (s, p) # f" "\<not> is_option p"
      "consume_positionals x h st items = Inr (st1, n)"
      "if n > 0 then parse_loop x h st1 (drop n items) = Inr (st', remaining)
           else parse_loop x h
                  (st1\<lparr>extras := extras st1 @ map fst (takeWhile (\<lambda>i. \<not> is_option (snd i)) items)\<rparr>)
                  (dropWhile (\<lambda>i. \<not> is_option (snd i)) items) = Inr (st', remaining)"
    by blast
  then show ?case
  proof cases
    case stop
    with less.prems show ?thesis by simp
  next
    case optional
    have P1: "P st1" using opt[OF less.prems(1) _ optional(2)] less.prems(2) optional(1) by simp
    have suf: "suffix (drop n f) items0"
      using less.prems(2) optional(1)
      by (meson suffix_ConsD suffix_drop suffix_order.trans)
    have len: "length (drop n f) < length items" using optional(1) by simp
    show ?thesis using less.hyps[OF len P1 suf optional(3)] .
  next
    case positional
    have P1: "P st1" using pos[OF less.prems(1) less.prems(2) positional(3)] .
    show ?thesis
    proof (cases "n > 0")
      case True
      have len: "length (drop n items) < length items" using True positional(1) by simp
      have suf: "suffix (drop n items) items0"
        using less.prems(2) by (meson suffix_drop suffix_order.trans)
      show ?thesis using less.hyps[OF len P1 suf] positional(4) True by simp
    next
      case False
      let ?d = "dropWhile (\<lambda>i. \<not> is_option (snd i)) items"
      have len: "length ?d < length items"
        using positional(1,2) by (simp add: less_Suc_eq_le length_dropWhile_le)
      have suf: "suffix ?d items0"
        using less.prems(2) by (meson suffix_dropWhile suffix_order.trans)
      show ?thesis using less.hyps[OF len ext[OF P1] suf] positional(4) False by simp
    qed
  qed
qed

lemma check_conflicts_Inr:
  "check_conflicts st a = Inr st' \<Longrightarrow>
     st' = st\<lparr>seen_non_default_actions := insert a (seen_non_default_actions st)\<rparr> \<and>
     (\<forall>c\<in>set (action_conflicts a). c \<notin> insert a (seen_non_default_actions st))"
  by (auto simp: check_conflicts_def Let_def filter_empty_conv split: list.splits)

lemma take_action_exits:
  "take_action x h st Help vs \<noteq> Inr st'" "take_action x h st Version_Action vs \<noteq> Inr st'"
  by (simp_all add: take_action_def Let_def split: sum.splits)

lemma take_action_Stdout:
  assumes "take_action x h st Stdout vs = Inr st'"
  shows "Check \<notin> seen_non_default_actions st"
    "st' = st\<lparr>seen_actions := insert Stdout (seen_actions st),
              seen_non_default_actions := insert Stdout (seen_non_default_actions st),
              ns_stdout := True\<rparr>"
  using assms
  by (auto simp: take_action_def Let_def split: sum.splits dest!: check_conflicts_Inr)

lemma take_action_Check:
  assumes "take_action x h st Check vs = Inr st'"
  shows "Stdout \<notin> seen_non_default_actions st"
    "st' = st\<lparr>seen_actions := insert Check (seen_actions st),
              seen_non_default_actions := insert Check (seen_non_default_actions st),
              ns_check := True\<rparr>"
  using assms
  by (auto simp: take_action_def Let_def split: sum.splits dest!: check_conflicts_Inr)

lemma take_action_Keep:
  assumes "take_action x h st Keep_Full_Version vs = Inr st'"
  shows "st' = st\<lparr>seen_actions := insert Keep_Full_Version (seen_actions st),
              seen_non_default_actions := insert Keep_Full_Version (seen_non_default_actions st),
              ns_keep_full_version := True\<rparr>"
  using assms
  by (auto simp: take_action_def Let_def split: sum.splits dest!: check_conflicts_Inr)

lemma take_action_Indent:
  assumes "take_action x h st Indent vs = Inr st'"
  shows "\<exists>v n. vs = [v] \<and> py_int x v = Some n \<and>
     st' = st\<lparr>seen_actions := insert Indent (seen_actions st),
              seen_non_default_actions := insert Indent (seen_non_default_actions st),
              ns_indent := n\<rparr>"
  using assms
  by (auto simp: take_action_def Let_def split: sum.splits list.splits option.splits
      dest!: check_conflicts_Inr)

lemma take_action_Max:
  assumes "take_action x h st Max_Supported_Python vs = Inr st'"
  shows "\<exists>v ver. vs = [v] \<and> Version x v = Some ver \<and>
     st' = st\<lparr>seen_actions := insert Max_Supported_Python (seen_actions st),
              seen_non_default_actions := insert Max_Supported_Python (seen_non_default_actions st),
              ns_max_supported_python := Inr ver\<rparr>"
  using assms
  by (auto simp: take_action_def Let_def split: sum.splits list.splits option.splits
      dest!: check_conflicts_Inr)

lemma take_action_Inputs:
  assumes "take_action x h st Inputs vs = Inr st'"
  shows "\<exists>ps. get_paths h (remove1 ''--'' vs) = Inr ps \<and>
     st' = st\<lparr>seen_actions := insert Inputs (seen_actions st),
              seen_non_default_actions := insert Inputs (seen_non_default_actions st),
              ns_inputs := Some ps\<rparr>"
  using assms
  by (auto simp: take_action_def Let_def split: sum.splits dest!: check_conflicts_Inr)

lemma consume_optional_invariant:
  assumes act: "\<And>st a vs st'. P st \<Longrightarrow> take_action x h st a vs = Inr st' \<Longrightarrow> P st'"
    and ext: "\<And>st e. P st \<Longrightarrow> P (st\<lparr>extras := e\<rparr>)"
    and "P st" and "consume_optional x h st s t f = Inr (st', n)"
  shows "P st'"
proof -
  obtain a os sep e where t: "t = (a, os, sep, e)" by (cases t)
  show ?thesis
  proof (cases a)
    case None
    with assms(4) t have "st' = st\<lparr>extras := extras st @ [s]\<rparr>"
      by (simp add: consume_optional_def)
    with ext[OF assms(3)] show ?thesis by simp
  next
    case (Some b)
    with assms(4) t obtain ts ex where
      "take_actions x h (st\<lparr>extras := extras st @ ex\<rparr>) ts = Inr st'"
      by (auto simp: consume_optional_def split: sum.splits prod.splits)
    from take_actions_invariant[where P = P, OF _ ext[OF assms(3)] this] act
    show ?thesis by blast
  qed
qed

lemma consume_positionals_invariant:
  assumes act: "\<And>st a vs st'. P st \<Longrightarrow> take_action x h st a vs = Inr st' \<Longrightarrow> P st'"
    and pos: "\<And>st q. P st \<Longrightarrow> P (st\<lparr>positionals := q\<rparr>)"
    and "P st" and "consume_positionals x h st its = Inr (st', n)"
  shows "P st'"
proof (cases "match_arguments_partial (positionals st) (map snd its)")
  case Nil
  with assms(4) have "st' = st" by (simp add: consume_positionals_def)
  with assms(3) show ?thesis by simp
next
  case (Cons k ks)
  with assms(4) obtain st1 where
    1: "take_action x h st (hd (positionals st)) (map fst (take k its)) = Inr st1"
    and 2: "st' = st1\<lparr>positionals := tl (positionals st1)\<rparr>"
    by (auto simp: consume_positionals_def split: sum.splits)
  from act[OF assms(3) 1] have "P st1" .
  with 2 pos show ?thesis by simp
qed


lemma convert_default_invariant:
  assumes mx: "\<And>st v. P st \<Longrightarrow> P (st\<lparr>ns_max_supported_python := Inr v\<rparr>)"
    and "P st" and "convert_default x st = Inr st'"
  shows "P st'"
proof (cases "Max_Supported_Python \<in> seen_actions st")
  case True
  with assms(3) have "st' = st" by (simp add: convert_default_def)
  with assms(2) show ?thesis by simp
next
  case False
  show ?thesis
  proof (cases "ns_max_supported_python st")
    case (Inr v)
    with False assms(3) have "st' = st" by (simp add: convert_default_def)
    with assms(2) show ?thesis by simp
  next
    case (Inl s)
    with False assms(3) obtain v where "st' = st\<lparr>ns_max_supported_python := Inr v\<rparr>"
      by (auto simp: convert_default_def split: option.splits)
    with mx[OF assms(2)] show ?thesis by simp
  qed
qed

lemma parse_known_args_Inr:
  assumes "parse_known_args x h args = Inr st"
  obtains items st1 remaining st2 stop where
    "classify args = Inr items"
    "parse_loop x h (initial_state x) items = Inr (st1, remaining)"
    "consume_positionals x h st1 remaining = Inr (st2, stop)"
    "convert_default x (st2\<lparr>extras := extras st2 @ map fst (drop stop remaining)\<rparr>) = Inr st"
    "Inputs \<in> seen_actions st"
proof -
  from assms obtain items where 1: "classify args = Inr items"
    by (cases "classify args") (simp_all add: parse_known_args_def)
  from assms 1 obtain st1 remaining where
    2: "parse_loop x h (initial_state x) items = Inr (st1, remaining)"
    by (cases "parse_loop x h (initial_state x) items") (auto simp: parse_known_args_def)
  from assms 1 2 obtain st2 stop where
    3: "consume_positionals x h st1 remaining = Inr (st2, stop)"
    by (cases "consume_positionals x h st1 remaining") (auto simp: parse_known_args_def)
  from assms 1 2 3 have
    4: "convert_default x (st2\<lparr>extras := extras st2 @ map fst (drop stop remaining)\<rparr>) = Inr st"
    and 5: "Inputs \<in> seen_actions st"
    by (cases "convert_default x (st2\<lparr>extras := extras st2 @ map fst (drop stop remaining)\<rparr>)";
        simp add: parse_known_args_def split: if_splits)+
  from that[OF 1 2 3 4 5] show thesis .
qed

lemma parse_known_args_invariant:
  assumes act: "\<And>st a vs st'. P st \<Longrightarrow> take_action x h st a vs = Inr st' \<Longrightarrow> P st'"
    and ext: "\<And>st e. P st \<Longrightarrow> P (st\<lparr>extras := e\<rparr>)"
    and pos: "\<And>st q. P st \<Longrightarrow> P (st\<lparr>positionals := q\<rparr>)"
    and mx: "\<And>st v. P st \<Longrightarrow> P (st\<lparr>ns_max_supported_python := Inr v\<rparr>)"
    and init: "P (initial_state x)"
    and res: "parse_known_args x h args = Inr st"
  shows "P st"
proof -
  from res obtain items st1 remaining st2 stop where
    loop: "parse_loop x h (initial_state x) items = Inr (st1, remaining)"
    and cp: "consume_positionals x h st1 remaining = Inr (st2, stop)"
    and cd: "convert_default x (st2\<lparr>extras := extras st2 @ map fst (drop stop remaining)\<rparr>) = Inr st"
    by (rule parse_known_args_Inr)
  have o: "\<And>st s t f st' n. P st \<Longrightarrow> suffix ((s, Pat_O t) # f) items \<Longrightarrow>
                  consume_optional x h st s t f = Inr (st', n) \<Longrightarrow> P st'"
  proof -
    fix st s t f st' n
    assume "P st" and c: "consume_optional x h st s t f = Inr (st', n)"
    show "P st'"
      by (rule consume_optional_invariant[where P = P, OF act ext \<open>P st\<close> c])
  qed
  have p: "\<And>st its st' n. P st \<Longrightarrow> suffix its items \<Longrightarrow>
                  consume_positionals x h st its = Inr (st', n) \<Longrightarrow> P st'"
  proof -
    fix st its st' n
    assume "P st" and c: "consume_positionals x h st its = Inr (st', n)"
    show "P st'"
      by (rule consume_positionals_invariant[where P = P, OF act pos \<open>P st\<close> c])
  qed
  have "P st1 \<and> suffix remaining items"
    by (rule parse_loop_invariant[where P = P and ?items0.0 = items,
          OF o p ext init suffix_order.refl loop])
  then have "P st1" ..
  have "P st2"
    by (rule consume_positionals_invariant[where P = P, OF act pos \<open>P st1\<close> cp])
  then have P3: "P (st2\<lparr>extras := extras st2 @ map fst (drop stop remaining)\<rparr>)" by (rule ext)
  show ?thesis by (rule convert_default_invariant[where P = P, OF mx P3 cd])
qed

lemma take_action_frame:
  assumes "take_action x h st a vs = Inr st'"
  shows "seen_non_default_actions st' = insert a (seen_non_default_actions st)"
    and "seen_actions st' = insert a (seen_actions st)"
    and "ns_stdout st' = (ns_stdout st \<or> a = Stdout)"
    and "ns_check st' = (ns_check st \<or> a = Check)"
    and "a = Stdout \<Longrightarrow> Check \<notin> seen_non_default_actions st"
    and "a = Check \<Longrightarrow> Stdout \<notin> seen_non_default_actions st"
    and "extras st' = extras st" and "positionals st' = positionals st"
    and "a \<noteq> Indent \<Longrightarrow> ns_indent st' = ns_indent st"
    and "a \<noteq> Inputs \<Longrightarrow> ns_inputs st' = ns_inputs st"
    and "a \<noteq> Max_Supported_Python \<Longrightarrow> ns_max_supported_python st' = ns_max_supported_python st"
    and "a \<noteq> Help" and "a \<noteq> Version_Action"
proof -
  have "seen_non_default_actions st' = insert a (seen_non_default_actions st)
    \<and> seen_actions st' = insert a (seen_actions st)
    \<and> ns_stdout st' = (ns_stdout st \<or> a = Stdout)
    \<and> ns_check st' = (ns_check st \<or> a = Check)
    \<and> (a = Stdout \<longrightarrow> Check \<notin> seen_non_default_actions st)
    \<and> (a = Check \<longrightarrow> Stdout \<notin> seen_non_default_actions st)
    \<and> extras st' = extras st \<and> positionals st' = positionals st
    \<and> (a \<noteq> Indent \<longrightarrow> ns_indent st' = ns_indent st)
    \<and> (a \<noteq> Inputs \<longrightarrow> ns_inputs st' = ns_inputs st)
    \<and> (a \<noteq> Max_Supported_Python \<longrightarrow> ns_max_supported_python st' = ns_max_supported_python st)
    \<and> a \<noteq> Help \<and> a \<noteq> Version_Action"
  proof (cases a)
    case Help
    with assms show ?thesis using take_action_exits(1) by blast
  next
    case Version_Action
    with assms show ?thesis using take_action_exits(2) by blast
  next
    case Stdout
    with assms take_action_Stdout[of x h st vs st'] show ?thesis by simp
  next
    case Check
    with assms take_action_Check[of x h st vs st'] show ?thesis by simp
  next
    case Keep_Full_Version
    with assms take_action_Keep[of x h st vs st'] show ?thesis by simp
  next
    case Indent
    with assms take_action_Indent[of x h st vs st'] show ?thesis by auto
  next
    case Max_Supported_Python
    with assms take_action_Max[of x h st vs st'] show ?thesis by auto
  next
    case Inputs
    with assms take_action_Inputs[of x h st vs st'] show ?thesis by auto
  qed
  then show "seen_non_default_actions st' = insert a (seen_non_default_actions st)"
    and "seen_actions st' = insert a (seen_actions st)"
    and "ns_stdout st' = (ns_stdout st \<or> a = Stdout)"
    and "ns_check st' = (ns_check st \<or> a = Check)"
    and "a = Stdout \<Longrightarrow> Check \<notin> seen_non_default_actions st"
    and "a = Check \<Longrightarrow> Stdout \<notin> seen_non_default_actions st"
    and "extras st' = extras st" and "positionals st' = positionals st"
    and "a \<noteq> Indent \<Longrightarrow> ns_indent st' = ns_indent st"
    and "a \<noteq> Inputs \<Longrightarrow> ns_inputs st' = ns_inputs st"
    and "a \<noteq> Max_Supported_Python \<Longrightarrow> ns_max_supported_python st' = ns_max_supported_python st"
    and "a \<noteq> Help" and "a \<noteq> Version_Action"
    by blast+
qed

lemma cli_args_Inr:
  assumes "cli_args x h args = Inr ns"
  obtains st ps ver where "parse_known_args x h args = Inr st" "extras st = []"
    "ns_inputs st = Some ps" "ns_max_supported_python st = Inr ver"
    "ns = \<lparr>inputs = ps, stdout = ns_stdout st, indent = ns_indent st,
           check = ns_check st, keep_full_version = ns_keep_full_version st,
           max_supported_python = ver\<rparr>"
proof -
  from assms obtain st where 1: "parse_known_args x h args = Inr st"
    by (cases "parse_known_args x h args") (simp_all add: cli_args_def)
  from assms 1 have 2: "extras st = []"
    by (simp add: cli_args_def split: if_splits)
  from assms 1 2 obtain ps where 3: "ns_inputs st = Some ps"
    by (cases "ns_inputs st") (simp_all add: cli_args_def)
  from assms 1 2 3 obtain ver where 4: "ns_max_supported_python st = Inr ver"
    by (cases "ns_max_supported_python st") (simp_all add: cli_args_def)
  from assms 1 2 3 4 have "ns = \<lparr>inputs = ps, stdout = ns_stdout st, indent = ns_indent st,
           check = ns_check st, keep_full_version = ns_keep_full_version st,
           max_supported_python = ver\<rparr>"
    by (simp add: cli_args_def)
  from that[OF 1 2 3 4 this] show thesis .
qed

lemma mutex_take_action:
  assumes "mutex_inv st" "take_action x h st a vs = Inr st'"
  shows "mutex_inv st'"
  using assms(1) take_action_frame(1,3,4,5,6)[OF assms(2)]
  unfolding mutex_inv_def by (cases a) auto

lemma parse_known_args_mutex:
  assumes "parse_known_args x h args = Inr st"
  shows "\<not> (ns_stdout st \<and> ns_check st)"
proof -
  have "mutex_inv st"
  proof (rule parse_known_args_invariant[where P = mutex_inv, OF _ _ _ _ _ assms])
    show "\<And>st a vs st'. mutex_inv st \<Longrightarrow> take_action x h st a vs = Inr st' \<Longrightarrow> mutex_inv st'"
      by (rule mutex_take_action)
  qed (simp_all add: mutex_inv_def initial_state_def)
  then show ?thesis by (auto simp: mutex_inv_def)
qed

lemma get_paths_Inr:
  "get_paths h vs = Inr ps \<Longrightarrow> list_all2 (\<lambda>v p. pyproject_toml_path_creator h v = Inr p) vs ps"
proof (induction vs arbitrary: ps)
  case Nil
  then show ?case by simp
next
  case (Cons v vs)
  from Cons.prems obtain p ps' where "pyproject_toml_path_creator h v = Inr p"
    "get_paths h vs = Inr ps'" "ps = p # ps'"
    by (auto split: sum.splits type_error.splits)
  with Cons.IH show ?case by simp
qed

lemma get_paths_set:
  "get_paths h vs = Inr ps \<Longrightarrow> p \<in> set ps \<Longrightarrow> \<exists>a\<in>set vs. pyproject_toml_path_creator h a = Inr p"
proof (induction vs arbitrary: ps)
  case Nil
  then show ?case by simp
next
  case (Cons v vs)
  from Cons.prems(1) obtain q ps' where q: "pyproject_toml_path_creator h v = Inr q"
    and r: "get_paths h vs = Inr ps'" and ps: "ps = q # ps'"
    by (auto split: sum.splits type_error.splits)
  show ?case
  proof (cases "p = q")
    case True
    with q show ?thesis by auto
  next
    case False
    with Cons.prems(2) ps have "p \<in> set ps'" by simp
    from Cons.IH[OF r this] show ?thesis by auto
  qed
qed

lemma inputs_take_action:
  assumes "inputs_inv h st" "take_action x h st a vs = Inr st'"
  shows "inputs_inv h st'"
proof (cases "a = Inputs")
  case False
  with assms take_action_frame(10)[OF assms(2)] show ?thesis by (simp add: inputs_inv_def)
next
  case True
  with assms(2) obtain ps where ps: "get_paths h (remove1 ''--'' vs) = Inr ps"
    and st': "ns_inputs st' = Some ps"
    using take_action_Inputs[of x h st vs st'] by auto
  from get_paths_set[OF ps] have "list_all (\<lambda>p. \<exists>a. pyproject_toml_path_creator h a = Inr p) ps"
    by (auto simp: list_all_iff)
  with st' show ?thesis by (simp add: inputs_inv_def)
qed

lemma cli_args_inputs:
  assumes "cli_args x h args = Inr ns" "p \<in> set (inputs ns)"
  shows "\<exists>a. pyproject_toml_path_creator h a = Inr p"
proof -
  from assms(1) obtain st ps where pk: "parse_known_args x h args = Inr st"
    and ps: "ns_inputs st = Some ps" and ns: "inputs ns = ps"
    by (rule cli_args_Inr) simp
  have "inputs_inv h st"
  proof (rule parse_known_args_invariant[where P = "inputs_inv h", OF _ _ _ _ _ pk])
    show "\<And>st a vs st'. inputs_inv h st \<Longrightarrow> take_action x h st a vs = Inr st' \<Longrightarrow> inputs_inv h st'"
      by (rule inputs_take_action)
  qed (simp_all add: inputs_inv_def initial_state_def)
  with ps ns assms(2) show ?thesis by (auto simp: inputs_inv_def list_all_iff)
qed

subsection \<open>The directory argument\<close>

lemma Path_proj: "Path ''proj'' = \<lparr>root = [], parts = [''proj'']\<rparr>"
  by (simp add: Path_def splitroot_def)

lemma Path_w: "Path ''/w'' = \<lparr>root = ''/'', parts = [''w'']\<rparr>"
  by (simp add: Path_def splitroot_def)

lemma Path_pyproject: "Path ''pyproject.toml'' = \<lparr>root = [], parts = [''pyproject.toml'']\<rparr>"
  by (simp add: Path_def splitroot_def)

text \<open>
  Claim C6. For an argument that names an existing directory, the validator appends
  \<^verbatim>\<open>pyproject.toml\<close> before the existence, file and permission checks: the argument is
  accepted if and only if that file in the directory is a regular file that can be read
  and written, and the path returned is the path of that file.
\<close>

theorem directory_argument:
  assumes "is_dir h (absolute h (Path a)) = Inr True"
  shows "pyproject_toml_path_creator h a = Inr p \<longleftrightarrow>
         (p = truediv (absolute h (Path a)) ''pyproject.toml''
          \<and> stat h p = St_Mode Regular \<and> access h p R_OK \<and> access h p W_OK)"
  using assms
  by (auto simp: pyproject_toml_path_creator_def Let_def is_dir_def is_file_def exists_path_def
      split: sum.splits if_splits stat_result.splits)

theorem directory_argument_witness:
  "is_dir example_host (absolute example_host (Path ''proj'')) = Inr True \<and>
   pyproject_toml_path_creator example_host ''proj''
     = Inr \<lparr>root = ''/'', parts = [''w'', ''proj'', ''pyproject.toml'']\<rparr>"
proof -
  have d: "is_dir example_host (absolute example_host (Path ''proj'')) = Inr True"
    by (simp add: is_dir_def absolute_def is_absolute_def Path_proj Path_w example_host_def
        example_files_def)
  show ?thesis
    using d directory_argument [OF d, of "\<lparr>root = ''/'', parts = [''w'', ''proj'', ''pyproject.toml'']\<rparr>"]
    by (simp add: truediv_def absolute_def is_absolute_def Path_proj Path_w Path_pyproject
        example_host_def example_files_def)
qed

subsection \<open>Absolute paths\<close>

lemma creator_absolute:
  assumes "is_absolute (Path (getcwd h))" "pyproject_toml_path_creator h a = Inr p"
  shows "is_absolute p"
  using creator_Inr[OF assms(2)] is_absolute_absolute[OF assms(1)] is_absolute_truediv
  by auto

text \<open>
  Claim C10. Every path that \<^verbatim>\<open>pyproject_toml_path_creator\<close> returns, and so every
  element of the parsed \<^verbatim>\<open>inputs\<close>, is an absolute path: the argument is made absolute
  before any check. \<^verbatim>\<open>os.getcwd()\<close> gives an absolute path, which is the hypothesis.
\<close>

theorem paths_absolute:
  assumes "is_absolute (Path (getcwd h))"
  shows "(\<forall>a p. pyproject_toml_path_creator h a = Inr p \<longrightarrow> is_absolute p) \<and>
         (\<forall>args ns. cli_args x h args = Inr ns \<longrightarrow> (\<forall>p\<in>set (inputs ns). is_absolute p))"
  using creator_absolute[OF assms] cli_args_inputs by blast

lemma Path_a_toml: "Path ''a.toml'' = \<lparr>root = [], parts = [''a.toml'']\<rparr>"
  by (simp add: Path_def splitroot_def)

lemma creator_a_toml:
  "pyproject_toml_path_creator example_host ''a.toml''
     = Inr \<lparr>root = ''/'', parts = [''w'', ''a.toml'']\<rparr>"
  by (simp add: pyproject_toml_path_creator_def is_dir_def exists_path_def is_file_def
      absolute_def is_absolute_def Path_a_toml Path_w example_host_def example_files_def)

theorem paths_absolute_witness:
  "is_absolute (Path (getcwd example_host)) \<and>
   pyproject_toml_path_creator example_host ''a.toml''
     = Inr \<lparr>root = ''/'', parts = [''w'', ''a.toml'']\<rparr> \<and>
   is_absolute \<lparr>root = ''/'', parts = [''w'', ''a.toml'']\<rparr>"
proof -
  have c: "is_absolute (Path (getcwd example_host))"
    by (simp add: example_host_def Path_w is_absolute_def)
  from paths_absolute[OF c, of example_externals] creator_a_toml
  have "is_absolute \<lparr>root = ''/'', parts = [''w'', ''a.toml'']\<rparr>" by blast
  with c creator_a_toml show ?thesis by blast
qed

subsection \<open>Argument lists without options\<close>

lemma parse_optional_positional:
  "a = [] \<or> hd a \<noteq> CHR ''-'' \<Longrightarrow> parse_optional a = Inr None"
  by (auto simp: parse_optional_def)

lemma classify_positional:
  "\<forall>a\<in>set args. a = [] \<or> hd a \<noteq> CHR ''-'' \<Longrightarrow> classify args = Inr (map (\<lambda>s. (s, Pat_A)) args)"
proof (induction args)
  case Nil
  then show ?case by simp
next
  case (Cons a args)
  then have 1: "a = [] \<or> hd a \<noteq> CHR ''-''" and 2: "classify args = Inr (map (\<lambda>s. (s, Pat_A)) args)"
    by auto
  from 1 have 3: "a \<noteq> ''--''" by auto
  show ?case using 2 3 parse_optional_positional[OF 1] by simp
qed

lemma takeWhile_all_arguments:
  "takeWhile (\<lambda>p. \<not> is_option p) (map (\<lambda>s. Pat_A) as) = map (\<lambda>s. Pat_A) as"
  by (induction as) auto

lemma match_all_arguments:
  assumes "args \<noteq> []"
  shows "match_one_or_more (map snd (map (\<lambda>s. (s, Pat_A)) args)) = Some (length args)"
proof -
  from assms obtain a as where args: "args = a # as" by (cases args) auto
  show ?thesis
    unfolding args by (simp add: match_one_or_more_def o_def takeWhile_all_arguments)
qed

lemma cli_args_positional_only:
  assumes "args \<noteq> []" "\<forall>a\<in>set args. a = [] \<or> hd a \<noteq> CHR ''-''"
  shows "cli_args x h args =
     (case get_paths h args of
        Inl e \<Rightarrow> Inl e
      | Inr ps \<Rightarrow>
          (case default_version x of
             Inl e \<Rightarrow> Inl e
           | Inr ver \<Rightarrow>
               Inr \<lparr>inputs = ps, stdout = False, indent = DEFAULT_INDENT x, check = False,
                    keep_full_version = False, max_supported_python = ver\<rparr>))"
proof -
  let ?items = "map (\<lambda>s. (s, Pat_A)) args"
  have cl: "classify args = Inr ?items" by (rule classify_positional[OF assms(2)])
  have "\<not> list_ex (\<lambda>i. is_option (snd i)) ?items" by (simp add: list_ex_iff)
  then have lp: "parse_loop x h (initial_state x) ?items = Inr (initial_state x, ?items)"
    by (rule parse_loop_stop)
  have nd: "''--'' \<notin> set args" using assms(2) by auto
  have ma: "match_arguments_partial (positionals (initial_state x)) (map snd ?items) = [length args]"
    using match_all_arguments[OF assms(1)]
    by (simp add: match_arguments_partial_def initial_state_def)
  have tk: "map fst (take (length args) ?items) = args" by (simp add: o_def)
  show ?thesis
  proof (cases "get_paths h args")
    case (Inl e)
    then have "take_action x h (initial_state x) Inputs args = Inl e"
      using nd by (simp add: take_action_def Let_def remove1_idem)
    then have "consume_positionals x h (initial_state x) ?items = Inl e"
      using ma tk by (simp add: consume_positionals_def initial_state_def)
    with cl lp Inl show ?thesis by (simp add: cli_args_def parse_known_args_def)
  next
    case (Inr ps)
    then have ta: "take_action x h (initial_state x) Inputs args =
        Inr ((initial_state x)\<lparr>seen_actions := {Inputs}, seen_non_default_actions := {Inputs},
              ns_inputs := Some ps\<rparr>)"
      using nd
      by (simp add: take_action_def Let_def remove1_idem check_conflicts_def initial_state_def)
    have cp: "consume_positionals x h (initial_state x) ?items =
        Inr ((initial_state x)\<lparr>seen_actions := {Inputs}, seen_non_default_actions := {Inputs},
              ns_inputs := Some ps, positionals := []\<rparr>, length args)"
      using ma tk ta by (simp add: consume_positionals_def initial_state_def)
    let ?st2 = "(initial_state x)\<lparr>seen_actions := {Inputs},
      seen_non_default_actions := {Inputs}, ns_inputs := Some ps, positionals := []\<rparr>"
    have ex: "?st2\<lparr>extras := extras ?st2 @ map fst (drop (length args) ?items)\<rparr> = ?st2"
      by (simp add: initial_state_def)
    have pk: "parse_known_args x h args =
        (case convert_default x ?st2 of
           Inl e \<Rightarrow> Inl e
         | Inr st'' \<Rightarrow>
             if Inputs \<notin> seen_actions st'' then Inl (Parser_Error (Required_Arguments [Inputs]))
             else Inr st'')"
      using cl lp cp ex by (simp add: parse_known_args_def)
    show ?thesis
    proof (cases "DEFAULT_MAX_SUPPORTED_PYTHON x")
      case (Inr ver)
      then have "convert_default x ?st2 = Inr ?st2"
        by (simp add: convert_default_def initial_state_def)
      with pk have "parse_known_args x h args = Inr ?st2" by simp
      then show ?thesis
        using Inr \<open>get_paths h args = Inr ps\<close>
        by (simp add: cli_args_def default_version_def initial_state_def)
    next
      case (Inl s)
      show ?thesis
      proof (cases "Version x s")
        case None
        with Inl have "convert_default x ?st2 = Inl (Parser_Error
            (Argument_Error Max_Supported_Python (Invalid_Value ''Version'' s)))"
          by (simp add: convert_default_def initial_state_def)
        with pk have "parse_known_args x h args = Inl (Parser_Error
            (Argument_Error Max_Supported_Python (Invalid_Value ''Version'' s)))" by simp
        then show ?thesis
          using Inl None \<open>get_paths h args = Inr ps\<close>
          by (simp add: cli_args_def default_version_def)
      next
        case (Some ver)
        with Inl have "convert_default x ?st2 = Inr (?st2\<lparr>ns_max_supported_python := Inr ver\<rparr>)"
          by (simp add: convert_default_def initial_state_def)
        with pk have "parse_known_args x h args = Inr (?st2\<lparr>ns_max_supported_python := Inr ver\<rparr>)"
          by simp
        then show ?thesis
          using Inl Some \<open>get_paths h args = Inr ps\<close>
          by (simp add: cli_args_def default_version_def initial_state_def)
      qed
    qed
  qed
qed

subsection \<open>Parsing does not read the files\<close>

lemma stat_checks_read_text [simp]:
  "is_dir (h\<lparr>read_text := r\<rparr>) p = is_dir h p"
  "exists_path (h\<lparr>read_text := r\<rparr>) p = exists_path h p"
  "is_file (h\<lparr>read_text := r\<rparr>) p = is_file h p"
  "absolute (h\<lparr>read_text := r\<rparr>) p = absolute h p"
  by (simp_all add: is_dir_def exists_path_def is_file_def absolute_def)

lemma creator_read_text [simp]:
  "pyproject_toml_path_creator (h\<lparr>read_text := r\<rparr>) a = pyproject_toml_path_creator h a"
  by (simp add: pyproject_toml_path_creator_def Let_def cong: sum.case_cong if_cong)

lemma get_paths_read_text [simp]: "get_paths (h\<lparr>read_text := r\<rparr>) vs = get_paths h vs"
  by (induction vs) (simp_all cong: sum.case_cong type_error.case_cong)

lemma take_action_read_text [simp]:
  "take_action x (h\<lparr>read_text := r\<rparr>) st a vs = take_action x h st a vs"
  by (simp add: take_action_def cong: action.case_cong)

lemma take_actions_read_text [simp]:
  "take_actions x (h\<lparr>read_text := r\<rparr>) st ts = take_actions x h st ts"
proof (induction ts arbitrary: st)
  case Nil
  show ?case by simp
next
  case (Cons t ts)
  then show ?case by (cases t) (simp cong: sum.case_cong)
qed

lemma consume_optional_read_text [simp]:
  "consume_optional x (h\<lparr>read_text := r\<rparr>) st s t f = consume_optional x h st s t f"
  by (simp add: consume_optional_def cong: prod.case_cong option.case_cong sum.case_cong)

lemma consume_positionals_read_text [simp]:
  "consume_positionals x (h\<lparr>read_text := r\<rparr>) st its = consume_positionals x h st its"
  by (simp add: consume_positionals_def cong: list.case_cong sum.case_cong)

lemma parse_loop_read_text [simp]:
  "parse_loop x (h\<lparr>read_text := r\<rparr>) st items = parse_loop x h st items"
proof (induction "length items" arbitrary: st items rule: less_induct)
  case less
  show ?case
  proof (cases "list_ex (\<lambda>i. is_option (snd i)) items")
    case False
    then show ?thesis by (simp add: parse_loop_stop)
  next
    case True
    then obtain s p f where items: "items = (s, p) # f" by (cases items) auto
    show ?thesis
    proof (cases "is_option p")
      case opt: True
      then obtain t where p: "p = Pat_O t" by (cases p) auto
      have "\<And>st' n. parse_loop x (h\<lparr>read_text := r\<rparr>) st' (drop n f) = parse_loop x h st' (drop n f)"
        by (rule less.hyps) (simp add: items)
      then show ?thesis
        unfolding items p parse_loop_optional
        by (simp cong: sum.case_cong prod.case_cong)
    next
      case nopt: False
      with True items have ex: "list_ex (\<lambda>i. is_option (snd i)) f" by simp
      have 1: "\<And>st' n. n > 0 \<Longrightarrow> parse_loop x (h\<lparr>read_text := r\<rparr>) st' (drop n items) = parse_loop x h st' (drop n items)"
        by (rule less.hyps) (simp add: items)
      have 2: "\<And>st'. parse_loop x (h\<lparr>read_text := r\<rparr>) st' (dropWhile (\<lambda>i. \<not> is_option (snd i)) items)
           = parse_loop x h st' (dropWhile (\<lambda>i. \<not> is_option (snd i)) items)"
        by (rule less.hyps) (simp add: items nopt less_Suc_eq_le length_dropWhile_le)
      show ?thesis
        using 1 2
        unfolding items parse_loop_positional[OF nopt ex]
        by (simp cong: sum.case_cong prod.case_cong if_cong)
    qed
  qed
qed

lemma cli_args_read_text:
  "cli_args x (h\<lparr>read_text := r\<rparr>) args = cli_args x h args"
  by (simp add: cli_args_def parse_known_args_def cong: sum.case_cong prod.case_cong)

subsection \<open>Input errors\<close>








subsection \<open>Eager validation of the inputs\<close>






subsection \<open>The options of one argument string\<close>













subsection \<open>The loop reaches every option\<close>



subsection \<open>Where an option lands in the pattern\<close>







subsection \<open>An option with a value that its type refuses\<close>







subsection \<open>An invalid value for --max-supported-python\<close>














subsection \<open>The value of --indent\<close>


















subsection \<open>configs\<close>

lemma configs_of_ok:
  assumes "\<forall>p\<in>set ps. read_text h p \<noteq> None"
  shows "\<exists>cs. configs_of h ns ps = Inr cs \<and> length cs = length ps \<and>
     (\<forall>i<length ps. pyproject_toml (cs ! i) = ps ! i \<and>
        read_text h (ps ! i) = Some (toml (cs ! i)) \<and>
        Config.indent (cs ! i) = indent ns \<and>
        Config.keep_full_version (cs ! i) = keep_full_version ns \<and>
        Config.max_supported_python (cs ! i) = max_supported_python ns)"
  using assms
proof (induction ps)
  case Nil
  then show ?case by simp
next
  case (Cons p ps)
  then obtain cs where cs: "configs_of h ns ps = Inr cs" "length cs = length ps"
    and each: "\<forall>i<length ps. pyproject_toml (cs ! i) = ps ! i \<and>
        read_text h (ps ! i) = Some (toml (cs ! i)) \<and>
        Config.indent (cs ! i) = indent ns \<and>
        Config.keep_full_version (cs ! i) = keep_full_version ns \<and>
        Config.max_supported_python (cs ! i) = max_supported_python ns"
    by auto
  from Cons.prems obtain t where t: "read_text h p = Some t" by auto
  show ?case
    using cs each t by (auto simp: Config.defs nth_Cons split: nat.splits)
qed

lemma configs_of_fail:
  assumes "\<exists>p\<in>set ps. read_text h p = None"
  shows "\<exists>e. configs_of h ns ps = Inl e"
  using assms
proof (induction ps)
  case Nil
  then show ?case by simp
next
  case (Cons p ps)
  show ?case
  proof (cases "read_text h p")
    case None
    then show ?thesis by simp
  next
    case (Some t)
    with Cons.prems have "\<exists>q\<in>set ps. read_text h q = None" by auto
    then obtain e where "configs_of h ns ps = Inl e" using Cons.IH by blast
    with Some show ?thesis by simp
  qed
qed

text \<open>
  Claim C9, as amended. For every namespace whose inputs can all be read as UTF-8 text,
  \<^verbatim>\<open>configs\<close> returns one \<^verbatim>\<open>Config\<close> per input path, in the order of the inputs:
  the i-th has the i-th path as \<^verbatim>\<open>pyproject_toml\<close>, the text read from that file as
  \<^verbatim>\<open>toml\<close>, and the \<^verbatim>\<open>indent\<close>, \<^verbatim>\<open>keep_full_version\<close> and
  \<^verbatim>\<open>max_supported_python\<close> of the namespace. If an input cannot be read or decoded,
  the property raises and returns no list. The validator never opens a file, so this
  happens for a successfully parsed namespace: the counterexample below parses
  \<^verbatim>\<open>a.toml\<close>, a regular file that can be read and written but does not decode.
\<close>

theorem configs_one_per_input:
  "((\<forall>p\<in>set (inputs ns). read_text h p \<noteq> None) \<longrightarrow>
     (\<exists>cs. configs h ns = Inr cs \<and> length cs = length (inputs ns) \<and>
       (\<forall>i<length (inputs ns).
          pyproject_toml (cs ! i) = inputs ns ! i \<and>
          read_text h (inputs ns ! i) = Some (toml (cs ! i)) \<and>
          Config.indent (cs ! i) = indent ns \<and>
          Config.keep_full_version (cs ! i) = keep_full_version ns \<and>
          Config.max_supported_python (cs ! i) = max_supported_python ns)))
   \<and> ((\<exists>p\<in>set (inputs ns). read_text h p = None) \<longrightarrow> (\<exists>e. configs h ns = Inl e))"
  using configs_of_ok [of "inputs ns" h ns] configs_of_fail [of "inputs ns" h ns]
  unfolding configs_def by blast

theorem configs_one_per_input_witness:
  "read_text example_host \<lparr>root = ''/'', parts = [''w'', ''a.toml'']\<rparr> \<noteq> None \<and>
   read_text example_host \<lparr>root = ''/'', parts = [''w'', ''b.toml'']\<rparr> \<noteq> None \<and>
   (\<exists>cs. configs example_host
            \<lparr>inputs = [\<lparr>root = ''/'', parts = [''w'', ''a.toml'']\<rparr>,
                       \<lparr>root = ''/'', parts = [''w'', ''b.toml'']\<rparr>],
             stdout = False, indent = 4, check = False,
             keep_full_version = True, max_supported_python = [3, 12 :: nat]\<rparr> = Inr cs \<and>
          length cs = 2 \<and>
          pyproject_toml (cs ! 1) = \<lparr>root = ''/'', parts = [''w'', ''b.toml'']\<rparr> \<and>
          Config.indent (cs ! 1) = 4)"
proof -
  let ?ns = "\<lparr>inputs = [\<lparr>root = ''/'', parts = [''w'', ''a.toml'']\<rparr>,
                        \<lparr>root = ''/'', parts = [''w'', ''b.toml'']\<rparr>],
              stdout = False, indent = 4, check = False,
              keep_full_version = True, max_supported_python = [3, 12 :: nat]\<rparr>"
  have r: "\<forall>p\<in>set (inputs ?ns). read_text example_host p \<noteq> None"
    by (simp add: example_host_def example_files_def)
  from configs_one_per_input [of ?ns example_host] r
  obtain cs where "configs example_host ?ns = Inr cs" "length cs = length (inputs ?ns)"
    "\<forall>i<length (inputs ?ns). pyproject_toml (cs ! i) = inputs ?ns ! i \<and>
        Config.indent (cs ! i) = indent ?ns"
    by blast
  then have "configs example_host ?ns = Inr cs \<and> length cs = 2 \<and>
          pyproject_toml (cs ! 1) = \<lparr>root = ''/'', parts = [''w'', ''b.toml'']\<rparr> \<and>
          Config.indent (cs ! 1) = 4"
    by simp
  moreover have "read_text example_host \<lparr>root = ''/'', parts = [''w'', ''a.toml'']\<rparr> \<noteq> None"
    "read_text example_host \<lparr>root = ''/'', parts = [''w'', ''b.toml'']\<rparr> \<noteq> None"
    using r by simp_all
  ultimately show ?thesis by blast
qed

lemma release_version_3_13: "release_version ''3.13'' = Some [3, 13]"
  by (simp add: release_version_def is_digit_def digits_value_def)

theorem configs_unreadable_counterexample:
  "cli_args example_externals (example_host\<lparr>read_text := \<lambda>p. None\<rparr>) [''a.toml'']
     = Inr \<lparr>inputs = [\<lparr>root = ''/'', parts = [''w'', ''a.toml'']\<rparr>], stdout = False,
            indent = 2, check = False, keep_full_version = False,
            max_supported_python = [3, 13]\<rparr> \<and>
   configs (example_host\<lparr>read_text := \<lambda>p. None\<rparr>)
       \<lparr>inputs = [\<lparr>root = ''/'', parts = [''w'', ''a.toml'']\<rparr>], stdout = False,
        indent = 2, check = False, keep_full_version = False,
        max_supported_python = [3, 13 :: nat]\<rparr>
     = Inl (Read_Error \<lparr>root = ''/'', parts = [''w'', ''a.toml'']\<rparr>)"
proof -
  have dv: "default_version example_externals = Inr [3, 13]"
    by (simp add: default_version_def example_externals_def release_version_3_13)
  have di: "DEFAULT_INDENT example_externals = 2" by (simp add: example_externals_def)
  have "cli_args example_externals example_host [''a.toml'']
     = Inr \<lparr>inputs = [\<lparr>root = ''/'', parts = [''w'', ''a.toml'']\<rparr>], stdout = False,
            indent = 2, check = False, keep_full_version = False,
            max_supported_python = [3, 13]\<rparr>"
    by (simp add: cli_args_positional_only creator_a_toml dv di)
  then show ?thesis
    by (simp add: cli_args_read_text configs_def)
qed

subsection \<open>Version trimming\<close>

lemma trim_release_examples:
  "trim_release [1, 0, 0] = [1]" "trim_release [1, 2, 0] = [1, 2]"
  "trim_release [1, 0, 1] = [1, 0, 1]" "trim_release [0, 0, 0] = [0]"
  by (simp_all add: trim_release_def)

lemma decimal_digits: "decimal 0 = ''0''" "decimal 1 = ''1''" "decimal 2 = ''2''"
  by (simp_all add: decimal.simps)

lemma zeros_replicate: "\<forall>z\<in>set zs. z = (0::nat) \<Longrightarrow> zs = replicate (length zs) 0"
  by (induction zs) auto

lemma release_split:
  "\<exists>k. r = rev (dropWhile (\<lambda>n. n = 0) (rev r)) @ replicate k (0::nat)"
proof -
  define d where "d = dropWhile (\<lambda>n::nat. n = 0) (rev r)"
  define t where "t = takeWhile (\<lambda>n::nat. n = 0) (rev r)"
  have "rev r = t @ d" unfolding d_def t_def by simp
  then have "rev (rev r) = rev (t @ d)" by (rule arg_cong)
  then have r: "r = rev d @ rev t" by (simp only: rev_rev_ident rev_append)
  have "\<forall>z\<in>set (rev t). z = 0" unfolding t_def by (auto dest: set_takeWhileD)
  from zeros_replicate[OF this] have "rev t = replicate (length (rev t)) 0" .
  with r have "r = rev d @ replicate (length (rev t)) 0" by simp
  then show ?thesis unfolding d_def by (rule exI)
qed

lemma trim_release_cases:
  obtains (zeros) "dropWhile (\<lambda>n. n = 0) (rev r) = []" "trim_release r = take 1 r"
  | (trimmed) "dropWhile (\<lambda>n. n = 0) (rev r) \<noteq> []"
      "trim_release r = rev (dropWhile (\<lambda>n. n = 0) (rev r))"
proof -
  define d where "d = dropWhile (\<lambda>n::nat. n = 0) (rev r)"
  have t: "trim_release r = (case rev d of [] \<Rightarrow> take 1 r | c # cs \<Rightarrow> c # cs)"
    unfolding d_def trim_release_def ..
  show thesis
  proof (cases "rev d")
    case Nil
    with t have 1: "trim_release r = take 1 r" by simp
    from Nil have 2: "d = []" by simp
    show ?thesis by (rule zeros[OF 2[unfolded d_def] 1])
  next
    case (Cons c cs)
    with t have 1: "trim_release r = rev d" by simp
    from Cons have 2: "d \<noteq> []" by auto
    show ?thesis by (rule trimmed[OF 2[unfolded d_def] 1[unfolded d_def]])
  qed
qed

lemma trim_release_zeros:
  "\<exists>k. r = trim_release r @ replicate k 0"
proof (cases r rule: trim_release_cases)
  case zeros
  from release_split[of r] obtain k where "r = rev (dropWhile (\<lambda>n. n = 0) (rev r)) @ replicate k 0"
    ..
  then have k: "r = replicate k 0" by (simp only: zeros(1) rev.simps append_Nil)
  have "drop 1 r = replicate (k - 1) 0" by (subst k) simp
  then have "take 1 r @ replicate (k - 1) 0 = take 1 r @ drop 1 r" by (simp only:)
  also have "\<dots> = r" by (rule append_take_drop_id)
  finally have "r = trim_release r @ replicate (k - 1) 0" by (simp only: zeros(2))
  then show ?thesis ..
next
  case trimmed
  from release_split[of r] show ?thesis by (simp only: trimmed(2))
qed

lemma trim_release_nonempty:
  assumes "r \<noteq> []"
  shows "trim_release r \<noteq> []"
proof (cases r rule: trim_release_cases)
  case zeros
  from assms have "take 1 r \<noteq> []" by (cases r) simp_all
  then show ?thesis unfolding zeros(2) .
next
  case trimmed
  from trimmed(1) have "rev (dropWhile (\<lambda>n. n = 0) (rev r)) \<noteq> []"
    unfolding rev_is_Nil_conv .
  then show ?thesis unfolding trimmed(2) .
qed

lemma trim_release_last:
  assumes "1 < length (trim_release r)"
  shows "last (trim_release r) \<noteq> 0"
proof (cases r rule: trim_release_cases)
  case zeros
  with assms show ?thesis by simp
next
  case trimmed
  define d where "d = dropWhile (\<lambda>n::nat. n = 0) (rev r)"
  from trimmed(1) have ne: "d \<noteq> []" unfolding d_def .
  then have "hd d \<noteq> 0" unfolding d_def by (rule hd_dropWhile)
  moreover have "last (rev d) = hd d" using ne by (simp add: last_rev)
  ultimately have "last (rev d) \<noteq> 0" by simp
  then show ?thesis unfolding trimmed(2) d_def .
qed

text \<open>
  Claim C2. With \<^verbatim>\<open>keep_full_version\<close> false, trailing zero components are trimmed
  from the release numbers down to a minimum of one component: what is removed from any
  release is a run of zeros at its end, a non-empty release stays non-empty, and a
  result of more than one component does not end in zero. So 1.0.0 becomes 1, 1.2.0
  becomes 1.2, 1.0.1 stays and 0.0.0 becomes 0. With \<^verbatim>\<open>keep_full_version\<close> true the
  constraint is unchanged. The operator and the suffix are never altered.
\<close>

theorem version_trimming:
  "((\<exists>k. release v = release (snd (normalize_constraint False (operator, v))) @ replicate k 0) \<and>
    (release v \<noteq> [] \<longrightarrow> release (snd (normalize_constraint False (operator, v))) \<noteq> []) \<and>
    (1 < length (release (snd (normalize_constraint False (operator, v)))) \<longrightarrow>
       last (release (snd (normalize_constraint False (operator, v)))) \<noteq> 0)) \<and>
   (version_text \<lparr>release = [1, 0, 0], release_suffix = []\<rparr> = ''1.0.0'' \<and>
   version_text (snd (normalize_constraint False (operator, \<lparr>release = [1, 0, 0], release_suffix = []\<rparr>))) = ''1'' \<and>
   version_text \<lparr>release = [1, 2, 0], release_suffix = []\<rparr> = ''1.2.0'' \<and>
   version_text (snd (normalize_constraint False (operator, \<lparr>release = [1, 2, 0], release_suffix = []\<rparr>))) = ''1.2'' \<and>
   version_text \<lparr>release = [1, 0, 1], release_suffix = []\<rparr> = ''1.0.1'' \<and>
   version_text (snd (normalize_constraint False (operator, \<lparr>release = [1, 0, 1], release_suffix = []\<rparr>))) = ''1.0.1'' \<and>
   version_text \<lparr>release = [0, 0, 0], release_suffix = []\<rparr> = ''0.0.0'' \<and>
   version_text (snd (normalize_constraint False (operator, \<lparr>release = [0, 0, 0], release_suffix = []\<rparr>))) = ''0'' \<and>
   normalize_constraint True (operator, v) = (operator, v) \<and>
   fst (normalize_constraint keep (operator, v)) = operator \<and>
   release_suffix (snd (normalize_constraint keep (operator, v))) = release_suffix v)"
proof (rule conjI)
  show "(\<exists>k. release v = release (snd (normalize_constraint False (operator, v))) @ replicate k 0) \<and>
    (release v \<noteq> [] \<longrightarrow> release (snd (normalize_constraint False (operator, v))) \<noteq> []) \<and>
    (1 < length (release (snd (normalize_constraint False (operator, v)))) \<longrightarrow>
       last (release (snd (normalize_constraint False (operator, v)))) \<noteq> 0)"
    using trim_release_zeros[of "release v"] trim_release_nonempty[of "release v"]
      trim_release_last[of "release v"]
    by (simp add: normalize_constraint_def)
  show "version_text \<lparr>release = [1, 0, 0], release_suffix = []\<rparr> = ''1.0.0'' \<and>
   version_text (snd (normalize_constraint False (operator, \<lparr>release = [1, 0, 0], release_suffix = []\<rparr>))) = ''1'' \<and>
   version_text \<lparr>release = [1, 2, 0], release_suffix = []\<rparr> = ''1.2.0'' \<and>
   version_text (snd (normalize_constraint False (operator, \<lparr>release = [1, 2, 0], release_suffix = []\<rparr>))) = ''1.2'' \<and>
   version_text \<lparr>release = [1, 0, 1], release_suffix = []\<rparr> = ''1.0.1'' \<and>
   version_text (snd (normalize_constraint False (operator, \<lparr>release = [1, 0, 1], release_suffix = []\<rparr>))) = ''1.0.1'' \<and>
   version_text \<lparr>release = [0, 0, 0], release_suffix = []\<rparr> = ''0.0.0'' \<and>
   version_text (snd (normalize_constraint False (operator, \<lparr>release = [0, 0, 0], release_suffix = []\<rparr>))) = ''0'' \<and>
   normalize_constraint True (operator, v) = (operator, v) \<and>
   fst (normalize_constraint keep (operator, v)) = operator \<and>
   release_suffix (snd (normalize_constraint keep (operator, v))) = release_suffix v"
    by (simp add: normalize_constraint_def version_text_def trim_release_examples decimal_digits
        del: One_nat_def)
qed

theorem version_trimming_witness:
  "release \<lparr>release = [2, 0, 0, 0], release_suffix = ''rc1''\<rparr> \<noteq> [] \<and>
   release (snd (normalize_constraint False
      (''>='', \<lparr>release = [2, 0, 0, 0], release_suffix = ''rc1''\<rparr>))) \<noteq> [] \<and>
   release (snd (normalize_constraint False
      (''>='', \<lparr>release = [2, 0, 0, 0], release_suffix = ''rc1''\<rparr>))) = [2]"
  using version_trimming[of "\<lparr>release = [2, 0, 0, 0], release_suffix = ''rc1''\<rparr>" "''>=''"]
  by (simp add: normalize_constraint_def trim_release_def)

end
